theory Spec2Isabelle
  imports Complex_Main "HOL-Library.Multiset" "HOL-Library.Monad_Syntax"
begin

section \<open>Surface polarity filter (\<^verbatim>\<open>src/filter/polar_score.py\<close>)\<close>

text \<open>
  The script scores one structure file with a closed-form tensor expression and copies the
  files whose score is at most a threshold. Floating-point numbers are modelled as exact
  reals, extended by one value \<open>NaN\<close> for the result of \<open>0/0\<close>, which every operation
  used here propagates. Rounding, overflow and underflow are outside the model. A Python
  exception is the value \<open>None\<close> of an option type.
\<close>

subsection \<open>Floats and tensors\<close>

datatype pyfloat = Fin real | NaN

fun fmap :: "(real \<Rightarrow> real) \<Rightarrow> pyfloat \<Rightarrow> pyfloat" where
  "fmap f (Fin x) = Fin (f x)"
| "fmap f NaN = NaN"

fun fmap2 :: "(real \<Rightarrow> real \<Rightarrow> real) \<Rightarrow> pyfloat \<Rightarrow> pyfloat \<Rightarrow> pyfloat" where
  "fmap2 f (Fin x) (Fin y) = Fin (f x y)"
| "fmap2 f _ _ = NaN"

definition fadd :: "pyfloat \<Rightarrow> pyfloat \<Rightarrow> pyfloat" where
  "fadd = fmap2 (+)"

definition fsub :: "pyfloat \<Rightarrow> pyfloat \<Rightarrow> pyfloat" where
  "fsub = fmap2 (-)"

definition fmul :: "pyfloat \<Rightarrow> pyfloat \<Rightarrow> pyfloat" where
  "fmul = fmap2 (*)"

text \<open>
  Division: \<open>0/0\<close> is \<open>NaN\<close>. A nonzero dividend over zero would be an infinity in IEEE
  arithmetic; at the two places where the script divides by a value that can be zero (a
  vector by its own norm, the numerator by the sum of the exposure terms) the dividend is
  zero whenever the divisor is.
\<close>

fun fdiv :: "pyfloat \<Rightarrow> pyfloat \<Rightarrow> pyfloat" where
  "fdiv (Fin x) (Fin y) = (if y = 0 then NaN else Fin (x / y))"
| "fdiv _ _ = NaN"

text \<open>\<^verbatim>\<open>torch.sum\<close> of a one-dimensional tensor.\<close>

fun fsum :: "pyfloat list \<Rightarrow> pyfloat" where
  "fsum [] = Fin 0"
| "fsum (x # xs) = fadd x (fsum xs)"

text \<open>Python's \<^verbatim>\<open><=\<close> on floats: false when either side is NaN.\<close>

fun fle :: "pyfloat \<Rightarrow> pyfloat \<Rightarrow> bool" where
  "fle (Fin x) (Fin y) = (x \<le> y)"
| "fle _ _ = False"

text \<open>
  The finite values of a tensor, or \<open>None\<close> when one entry is NaN.
\<close>

fun finite_values :: "pyfloat list \<Rightarrow> real list option" where
  "finite_values [] = Some []"
| "finite_values (Fin x # xs) = map_option ((#) x) (finite_values xs)"
| "finite_values (NaN # xs) = None"

text \<open>
  \<^verbatim>\<open>torch.median\<close> of a one-dimensional tensor: for an even number of elements it returns
  the lower of the two middle values; NaN when an entry is NaN or the tensor is empty.
  The scorer never takes the median of an empty tensor: an empty selection raises before.
\<close>

definition torch_median :: "pyfloat list \<Rightarrow> pyfloat" where
  "torch_median xs =
     (case finite_values xs of
        None \<Rightarrow> NaN
      | Some rs \<Rightarrow> if rs = [] then NaN else Fin (sort rs ! ((length rs - 1) div 2)))"

text \<open>\<^verbatim>\<open>torch.sigmoid\<close>.\<close>

definition sigmoid :: "real \<Rightarrow> real" where
  "sigmoid x = 1 / (1 + exp (- x))"

text \<open>
  Broadcasting of two arrays along one axis, as numpy and torch do it: equal sizes combine
  elementwise, a size of 1 is stretched to the other size, anything else raises.
\<close>

definition broadcast :: "('a \<Rightarrow> 'b \<Rightarrow> 'c) \<Rightarrow> 'a list \<Rightarrow> 'b list \<Rightarrow> 'c list option" where
  "broadcast f xs ys =
     (if length xs = length ys then Some (map2 f xs ys)
      else if length xs = 1 then Some (map (f (hd xs)) ys)
      else if length ys = 1 then Some (map (\<lambda>x. f x (hd ys)) xs)
      else None)"

fun all_some :: "'a option list \<Rightarrow> 'a list option" where
  "all_some [] = Some []"
| "all_some (None # xs) = None"
| "all_some (Some x # xs) = map_option ((#) x) (all_some xs)"

text \<open>Broadcasting of two matrices (lists of rows) along both axes.\<close>

definition broadcast2 ::
  "('a \<Rightarrow> 'b \<Rightarrow> 'c) \<Rightarrow> 'a list list \<Rightarrow> 'b list list \<Rightarrow> 'c list list option" where
  "broadcast2 f A B = Option.bind (broadcast (broadcast f) A B) all_some"

text \<open>\<^verbatim>\<open>torch.eye(n).bool()\<close> and \<^verbatim>\<open>masked_fill\<close> with a mask of the tensor's shape.\<close>

definition eye :: "nat \<Rightarrow> bool list list" where
  "eye n = map (\<lambda>i. map (\<lambda>j. i = j) [0..<n]) [0..<n]"

definition masked_fill :: "pyfloat list list \<Rightarrow> bool list list \<Rightarrow> pyfloat \<Rightarrow> pyfloat list list" where
  "masked_fill W msk v = map2 (map2 (\<lambda>w b. if b then v else w)) W msk"

subsection \<open>Structures\<close>

type_synonym vec3 = "real \<times> real \<times> real"

text \<open>
  A residue as the script sees it through mdtraj: its name and sequence number (\<^verbatim>\<open>str(residue)\<close>
  is the name followed by the number), and the coordinates of its backbone atoms named
  \<^verbatim>\<open>C\<close> and \<^verbatim>\<open>CA\<close>, when it has them. A loaded structure is the list of its residues in
  file order; atom selections return atoms in that order.
\<close>

record residue =
  name :: string
  resSeq :: string
  atom_C :: "vec3 option"
  atom_CA :: "vec3 option"

type_synonym trajectory = "residue list"

definition str_residue :: "residue \<Rightarrow> string" where
  "str_residue r = name r @ resSeq r"

text \<open>
  \<^verbatim>\<open>traj.xyz[0, top.select("backbone and name C")]\<close> and the same for \<^verbatim>\<open>CA\<close>: the
  coordinates of the selected atoms. A selection of no atom is an empty array of floats,
  and indexing with it raises \<^verbatim>\<open>IndexError\<close>.
\<close>

definition select_C :: "trajectory \<Rightarrow> vec3 list option" where
  "select_C traj =
     (let CBs_coords = List.map_filter atom_C traj
      in if CBs_coords = [] then None else Some CBs_coords)"

definition select_CA :: "trajectory \<Rightarrow> vec3 list option" where
  "select_CA traj =
     (let CAs_coords = List.map_filter atom_CA traj
      in if CAs_coords = [] then None else Some CAs_coords)"

text \<open>\<^verbatim>\<open>md.load\<close>: the parsed structure of a path, \<open>None\<close> when loading raises.\<close>

type_synonym loader = "string \<Rightarrow> trajectory option"

definition load_pdb :: "loader \<Rightarrow> string \<Rightarrow> trajectory option" where
  "load_pdb ld pdb_file = ld pdb_file"

subsection \<open>Geometry\<close>

fun vsub :: "vec3 \<Rightarrow> vec3 \<Rightarrow> vec3" where
  "vsub (x1, y1, z1) (x2, y2, z2) = (x1 - x2, y1 - y2, z1 - z2)"

text \<open>\<^verbatim>\<open>torch.norm(..., p=2)\<close> along the coordinate axis.\<close>

fun norm3 :: "vec3 \<Rightarrow> real" where
  "norm3 (x, y, z) = sqrt (x\<^sup>2 + y\<^sup>2 + z\<^sup>2)"

fun vdiv :: "vec3 \<Rightarrow> pyfloat \<Rightarrow> pyfloat \<times> pyfloat \<times> pyfloat" where
  "vdiv (x, y, z) n = (fdiv (Fin x) n, fdiv (Fin y) n, fdiv (Fin z) n)"

fun fdot :: "pyfloat \<times> pyfloat \<times> pyfloat \<Rightarrow> pyfloat \<times> pyfloat \<times> pyfloat \<Rightarrow> pyfloat" where
  "fdot (x1, y1, z1) (x2, y2, z2) = fadd (fadd (fmul x1 x2) (fmul y1 y2)) (fmul z1 z2)"

definition clamp :: "real \<Rightarrow> real \<Rightarrow> real \<Rightarrow> real" where
  "clamp lo hi x = min (max x lo) hi"

definition calculate_backbone_neighbors :: "loader \<Rightarrow> string \<Rightarrow> pyfloat list list option" where
  "calculate_backbone_neighbors ld pdb_file =
     do {
       traj \<leftarrow> load_pdb ld pdb_file;
       CBs_coords \<leftarrow> select_C traj;
       Some (map (\<lambda>c. map (\<lambda>c'. Fin (norm3 (vsub c c'))) CBs_coords) CBs_coords)
     }"

definition calculate_angles :: "trajectory \<Rightarrow> pyfloat list list option" where
  "calculate_angles traj =
     do {
       CBs_coords \<leftarrow> select_C traj;
       CAs_coords \<leftarrow> select_CA traj;
       CAs_CBs_coords \<leftarrow> broadcast vsub CBs_coords CAs_coords;
       let norm = map (\<lambda>v. Fin (norm3 v)) CAs_CBs_coords;
       let normalized = map2 vdiv CAs_CBs_coords norm;
       let cos_angles = map (\<lambda>u. map (\<lambda>v. fdot u v) normalized) normalized;
       let cos_angles = map (map (fmap (clamp (-1) 1))) cos_angles;
       let phi_ij = map (map (fmap arccos)) cos_angles;
       Some phi_ij
     }"

subsection \<open>Residue classification\<close>

definition non_polar_residues :: "string list" where
  "non_polar_residues = [''ILE'', ''LEU'', ''MET'', ''TRP'', ''PHE'', ''VAL'']"

definition polar_residues :: "string list" where
  "polar_residues = [''SER'', ''THR'', ''TYR'', ''ASN'', ''GLN'']"

text \<open>
  The loop of \<^verbatim>\<open>classify_polarity\<close>: \<open>i\<close> is the index of the residue at the head of the
  list, the two tensors are updated in place.
\<close>

fun classify_loop ::
  "nat \<Rightarrow> string list \<Rightarrow> pyfloat list \<times> pyfloat list \<Rightarrow> pyfloat list \<times> pyfloat list" where
  "classify_loop i [] (non_polar, polar) = (non_polar, polar)"
| "classify_loop i (residue # rest) (non_polar, polar) =
     (let res_name = take 3 residue in
      if res_name \<in> set non_polar_residues
        then classify_loop (Suc i) rest (non_polar[i := Fin 1], polar)
      else if res_name \<in> set polar_residues
        then classify_loop (Suc i) rest (non_polar, polar[i := Fin 1])
      else classify_loop (Suc i) rest (non_polar, polar))"

definition classify_polarity :: "trajectory \<Rightarrow> pyfloat list \<times> pyfloat list" where
  "classify_polarity traj =
     (let residues = map str_residue traj;
          non_polar = replicate (length residues) (Fin 0);
          polar = replicate (length residues) (Fin 0)
      in classify_loop 0 residues (non_polar, polar))"

subsection \<open>The score\<close>

text \<open>
  The constants \<^verbatim>\<open>m = 1.0\<close>, \<^verbatim>\<open>a = 0.5\<close> and \<^verbatim>\<open>b = 2.0\<close> of the script. The exponent is
  an integral float, for which the power of a negative base is the ordinary square.
\<close>

definition m_const :: real where
  "m_const = 1"

definition a_const :: real where
  "a_const = 1 / 2"

definition b_const :: nat where
  "b_const = 2"

definition distance_weight :: "real \<Rightarrow> real" where
  "distance_weight d = 1 / (1 + exp (d - m_const))"

definition angle_weight :: "real \<Rightarrow> real" where
  "angle_weight \<phi> = ((cos (pi - \<phi>) + a_const) / (1 + a_const)) ^ b_const"

text \<open>Lines 89 to 95: the combined weights with the diagonal filled with zero.\<close>

definition combined_weights_of ::
  "pyfloat list list \<Rightarrow> pyfloat list list \<Rightarrow> pyfloat list list option" where
  "combined_weights_of CBs_dis phi_ij =
     do {
       let distance_weights = map (map (fmap distance_weight)) CBs_dis;
       let angle_weights = map (map (fmap angle_weight)) phi_ij;
       combined_weights \<leftarrow> broadcast2 fmul distance_weights angle_weights;
       let diag_mask = eye (length combined_weights);
       Some (masked_fill combined_weights diag_mask (Fin 0))
     }"

text \<open>Lines 97 to 100: the exposure terms.\<close>

definition sigmoid_term_of :: "pyfloat list list \<Rightarrow> pyfloat list" where
  "sigmoid_term_of combined_weights =
     (let n_i = map fsum combined_weights;
          median_n_i = torch_median n_i
      in map (\<lambda>x. fsub (Fin 1) (fmap sigmoid (fsub x median_n_i))) n_i)"

text \<open>Lines 102 to 105: numerator, denominator and their quotient.\<close>

definition denominator_of :: "pyfloat list \<Rightarrow> pyfloat" where
  "denominator_of sigmoid_term = fsum sigmoid_term"

definition polar_score_of :: "pyfloat list \<Rightarrow> pyfloat list \<Rightarrow> pyfloat option" where
  "polar_score_of non_polar sigmoid_term =
     do {
       weighted \<leftarrow> broadcast fmul non_polar sigmoid_term;
       let numerator = fsum weighted;
       let denominator = denominator_of sigmoid_term;
       Some (fdiv numerator denominator)
     }"

text \<open>
  The exposure terms as the scorer computes them for a file (the local variable
  \<^verbatim>\<open>sigmoid_term\<close>), \<open>None\<close> when an exception is raised before.
\<close>

definition sigmoid_term_for :: "loader \<Rightarrow> string \<Rightarrow> pyfloat list option" where
  "sigmoid_term_for ld pdb_file =
     do {
       traj \<leftarrow> load_pdb ld pdb_file;
       CBs_dis \<leftarrow> calculate_backbone_neighbors ld pdb_file;
       phi_ij \<leftarrow> calculate_angles traj;
       combined_weights \<leftarrow> combined_weights_of CBs_dis phi_ij;
       Some (sigmoid_term_of combined_weights)
     }"

text \<open>The body of the \<^verbatim>\<open>try\<close> block of the scorer: \<open>None\<close> when it raises.\<close>

definition polar_score_try :: "loader \<Rightarrow> string \<Rightarrow> pyfloat option" where
  "polar_score_try ld pdb_file =
     do {
       traj \<leftarrow> load_pdb ld pdb_file;
       CBs_dis \<leftarrow> calculate_backbone_neighbors ld pdb_file;
       let (non_polar, polar) = classify_polarity traj;
       phi_ij \<leftarrow> calculate_angles traj;
       combined_weights \<leftarrow> combined_weights_of CBs_dis phi_ij;
       let sigmoid_term = sigmoid_term_of combined_weights;
       polar_score_of non_polar sigmoid_term
     }"

text \<open>
  Log records. The messages are formatted text in the script; the model keeps which call
  was made and its arguments.
\<close>

datatype log_entry =
    Error_score string
  | Warning_skip string
  | Info_start string
  | Info_found nat
  | Info_threshold pyfloat
  | Info_score string pyfloat
  | Info_copied string
  | Info_rejected pyfloat
  | Info_done
  | Info_total nat
  | Info_passed nat
  | Info_rate nat nat
  | Warning_no_files

text \<open>
  The scorer: the float computed by the \<^verbatim>\<open>try\<close> block, or Python's \<^verbatim>\<open>None\<close> after logging
  an error when any exception was raised. The second component is the extended log.
\<close>

definition calculate_surface_polar_score ::
  "loader \<Rightarrow> string \<Rightarrow> log_entry list \<Rightarrow> pyfloat option \<times> log_entry list" where
  "calculate_surface_polar_score ld pdb_file lg =
     (case polar_score_try ld pdb_file of
        Some polar_score \<Rightarrow> (Some polar_score, lg)
      | None \<Rightarrow> (None, lg @ [Error_score pdb_file]))"

subsection \<open>The batch filter\<close>

definition endswith :: "string \<Rightarrow> string \<Rightarrow> bool" where
  "endswith s suf = (length suf \<le> length s \<and> drop (length s - length suf) s = suf)"

text \<open>\<^verbatim>\<open>os.path.join\<close> of two components on a POSIX system.\<close>

definition path_join :: "string \<Rightarrow> string \<Rightarrow> string" where
  "path_join d f =
     (if f \<noteq> [] \<and> hd f = CHR ''/'' then f
      else if d = [] \<or> last d = CHR ''/'' then d @ f
      else d @ ''/'' @ f)"

text \<open>
  The file system as the batch filter meets it: the loader, whether \<^verbatim>\<open>os.makedirs\<close>
  succeeds for a path, the entries \<^verbatim>\<open>os.listdir\<close> returns for a directory (\<open>None\<close> when it
  raises), and whether a copy from one path to another is possible at all.
\<close>

record env =
  md_load :: loader
  makedirs_ok :: "string \<Rightarrow> bool"
  listdir :: "string \<Rightarrow> string list option"
  copy_ok :: "string \<Rightarrow> string \<Rightarrow> bool"

text \<open>
  \<^verbatim>\<open>shutil.copy\<close> succeeds or raises. It raises \<^verbatim>\<open>SameFileError\<close> when source and
  destination are the same path, and whenever the file system refuses the copy.
\<close>

definition shutil_copy :: "env \<Rightarrow> string \<Rightarrow> string \<Rightarrow> bool" where
  "shutil_copy e src dst = (src \<noteq> dst \<and> copy_ok e src dst)"

text \<open>
  The state of a run: the counter, the copies made by \<^verbatim>\<open>shutil.copy\<close> (source and
  destination path, in the order they were made) and the log.
\<close>

record run_state =
  passed_files :: nat
  copied :: "(string \<times> string) list"
  log :: "log_entry list"

text \<open>
  The loop over the files. Nothing in the batch filter catches an exception, so a copy
  that raises ends the run: \<open>Inl\<close> holds the state reached when the exception left the
  function, \<open>Inr\<close> the state after the last file.
\<close>

fun filter_loop ::
  "env \<Rightarrow> string \<Rightarrow> string \<Rightarrow> pyfloat \<Rightarrow> string list \<Rightarrow> run_state
     \<Rightarrow> run_state + run_state" where
  "filter_loop e design_path output_dir polar_threshold [] st = Inr st"
| "filter_loop e design_path output_dir polar_threshold (pdb_file # rest) st =
     (let file_path = path_join design_path pdb_file;
          (polar_score, lg) = calculate_surface_polar_score (md_load e) file_path (log st)
      in case polar_score of
           None \<Rightarrow>
             filter_loop e design_path output_dir polar_threshold rest
               (st\<lparr>log := lg @ [Warning_skip pdb_file]\<rparr>)
         | Some score \<Rightarrow>
             if fle score polar_threshold then
               (let dest_path = path_join output_dir pdb_file in
                if shutil_copy e file_path dest_path then
                  filter_loop e design_path output_dir polar_threshold rest
                    (st\<lparr>passed_files := passed_files st + 1,
                        copied := copied st @ [(file_path, dest_path)],
                        log := lg @ [Info_score pdb_file score, Info_copied dest_path]\<rparr>)
                else Inl (st\<lparr>log := lg @ [Info_score pdb_file score]\<rparr>))
             else
               filter_loop e design_path output_dir polar_threshold rest
                 (st\<lparr>log := lg @ [Info_score pdb_file score, Info_rejected polar_threshold]\<rparr>))"

text \<open>
  \<^verbatim>\<open>filter_pdbs_by_polar_score\<close>. The result is \<open>Inr\<close> of the returned count and the final
  state, or \<open>Inl\<close> of the state reached when an exception left the function.
\<close>

definition filter_pdbs_by_polar_score ::
  "env \<Rightarrow> string \<Rightarrow> string \<Rightarrow> pyfloat \<Rightarrow> log_entry list \<Rightarrow> run_state + nat \<times> run_state" where
  "filter_pdbs_by_polar_score e design_path output_dir polar_threshold lg =
     (if \<not> makedirs_ok e output_dir then Inl \<lparr>passed_files = 0, copied = [], log = lg\<rparr>
      else case listdir e design_path of
        None \<Rightarrow> Inl \<lparr>passed_files = 0, copied = [], log = lg\<rparr>
      | Some entries \<Rightarrow>
          (let pdb_files = filter (\<lambda>f. endswith f ''.pdb'') entries;
               total_files = length pdb_files;
               st0 = \<lparr>passed_files = 0, copied = [],
                      log = lg @ [Info_start design_path, Info_found total_files,
                                  Info_threshold polar_threshold]\<rparr>
           in case filter_loop e design_path output_dir polar_threshold pdb_files st0 of
                Inl st \<Rightarrow> Inl st
              | Inr st \<Rightarrow>
                  (let summary =
                         [Info_done, Info_total total_files, Info_passed (passed_files st)]
                         @ (if total_files > 0 then [Info_rate (passed_files st) total_files]
                            else [Warning_no_files])
                   in Inr (passed_files st, st\<lparr>log := log st @ summary\<rparr>))))"

text \<open>What a run leaves behind: the returned count, if any, the copies and the log.\<close>

definition count_of :: "run_state + nat \<times> run_state \<Rightarrow> nat option" where
  "count_of r = (case r of Inl st \<Rightarrow> None | Inr (n, st) \<Rightarrow> Some n)"

definition copies_of :: "run_state + nat \<times> run_state \<Rightarrow> (string \<times> string) list" where
  "copies_of r = (case r of Inl st \<Rightarrow> copied st | Inr (n, st) \<Rightarrow> copied st)"

definition log_of :: "run_state + nat \<times> run_state \<Rightarrow> log_entry list" where
  "log_of r = (case r of Inl st \<Rightarrow> log st | Inr (n, st) \<Rightarrow> log st)"

text \<open>
  The \<^verbatim>\<open>.pdb\<close> entries of a listing whose score is computed and at most the threshold, in
  directory order, and the copy the loop attempts for an entry.
\<close>

definition passes :: "env \<Rightarrow> string \<Rightarrow> pyfloat \<Rightarrow> string \<Rightarrow> bool" where
  "passes e design_path polar_threshold f =
     (case fst (calculate_surface_polar_score (md_load e) (path_join design_path f) []) of
        Some s \<Rightarrow> fle s polar_threshold | None \<Rightarrow> False)"

definition passing_files :: "env \<Rightarrow> string \<Rightarrow> pyfloat \<Rightarrow> string list \<Rightarrow> string list" where
  "passing_files e design_path polar_threshold entries =
     filter (passes e design_path polar_threshold) (filter (\<lambda>f. endswith f ''.pdb'') entries)"

definition copy_of :: "string \<Rightarrow> string \<Rightarrow> string \<Rightarrow> string \<times> string" where
  "copy_of design_path output_dir f = (path_join design_path f, path_join output_dir f)"

definition copy_succeeds :: "env \<Rightarrow> string \<Rightarrow> string \<Rightarrow> string \<Rightarrow> bool" where
  "copy_succeeds e design_path output_dir f =
     shutil_copy e (path_join design_path f) (path_join output_dir f)"

subsection \<open>When the scorer raises\<close>

text \<open>
  The numbers of selected \<^verbatim>\<open>C\<close> and \<^verbatim>\<open>CA\<close> atoms, and the shapes for which an operation
  of the scorer raises: an empty selection, two selections that do not broadcast, or a
  classification vector and a vector of exposure terms that do not broadcast. The
  exposure terms are as many as the larger of the two selections.
\<close>

definition count_C :: "trajectory \<Rightarrow> nat" where
  "count_C traj = length (List.map_filter atom_C traj)"

definition count_CA :: "trajectory \<Rightarrow> nat" where
  "count_CA traj = length (List.map_filter atom_CA traj)"

definition scorer_raises :: "trajectory \<Rightarrow> bool" where
  "scorer_raises traj =
     (let k = count_C traj; m = count_CA traj; n = max k m; r = length traj
      in k = 0 \<or> m = 0 \<or> (k \<noteq> m \<and> k \<noteq> 1 \<and> m \<noteq> 1) \<or> (r \<noteq> n \<and> r \<noteq> 1 \<and> n \<noteq> 1))"

subsection \<open>The score in closed form\<close>

text \<open>
  For the structures the scorer is meant for (every residue has its backbone \<^verbatim>\<open>C\<close> and
  \<^verbatim>\<open>CA\<close> atoms, at different positions, and there is at least one residue) no exception is
  raised and no NaN arises, and the tensor program computes the real-valued expression
  below. The lemmas \<open>polar_score_try_wf\<close> and \<open>sigmoid_term_for_wf\<close> prove it; the
  properties of the score are then derived from the closed form.
\<close>

definition nonpolar_ind :: "residue \<Rightarrow> real" where
  "nonpolar_ind r = (if take 3 (str_residue r) \<in> set non_polar_residues then 1 else 0)"

definition polar_ind :: "residue \<Rightarrow> real" where
  "polar_ind r = (if take 3 (str_residue r) \<in> set non_polar_residues then 0
                  else if take 3 (str_residue r) \<in> set polar_residues then 1 else 0)"

definition np_str :: "string \<Rightarrow> pyfloat" where
  "np_str s = (if take 3 s \<in> set non_polar_residues then Fin 1 else Fin 0)"

definition p_str :: "string \<Rightarrow> pyfloat" where
  "p_str s = (if take 3 s \<in> set non_polar_residues then Fin 0
                  else if take 3 s \<in> set polar_residues then Fin 1 else Fin 0)"

definition wf_residue :: "residue \<Rightarrow> bool" where
  "wf_residue r = (case (atom_C r, atom_CA r) of (Some c, Some a) \<Rightarrow> c \<noteq> a | _ \<Rightarrow> False)"

definition wf_traj :: "trajectory \<Rightarrow> bool" where
  "wf_traj traj = (traj \<noteq> [] \<and> list_all wf_residue traj)"

definition C_of :: "residue \<Rightarrow> vec3" where
  "C_of r = the (atom_C r)"

definition CA_of :: "residue \<Rightarrow> vec3" where
  "CA_of r = the (atom_CA r)"

definition direction :: "residue \<Rightarrow> vec3" where
  "direction r = vsub (C_of r) (CA_of r)"

fun scale3 :: "vec3 \<Rightarrow> real \<Rightarrow> vec3" where
  "scale3 (x, y, z) n = (x / n, y / n, z / n)"

fun dot3 :: "vec3 \<Rightarrow> vec3 \<Rightarrow> real" where
  "dot3 (x1, y1, z1) (x2, y2, z2) = x1 * x2 + y1 * y2 + z1 * z2"

definition unit_dir :: "residue \<Rightarrow> vec3" where
  "unit_dir r = scale3 (direction r) (norm3 (direction r))"

definition pair_angle :: "residue \<Rightarrow> residue \<Rightarrow> real" where
  "pair_angle r r' = arccos (clamp (-1) 1 (dot3 (unit_dir r) (unit_dir r')))"

definition pair_distance :: "residue \<Rightarrow> residue \<Rightarrow> real" where
  "pair_distance r r' = norm3 (vsub (C_of r) (C_of r'))"

definition pair_weight :: "residue \<Rightarrow> residue \<Rightarrow> real" where
  "pair_weight r r' = distance_weight (pair_distance r r') * angle_weight (pair_angle r r')"

definition density :: "trajectory \<Rightarrow> residue \<Rightarrow> real" where
  "density traj r = sum_list (map (pair_weight r) traj) - pair_weight r r"

definition lower_median :: "real list \<Rightarrow> real" where
  "lower_median xs = sort xs ! ((length xs - 1) div 2)"

definition exposure :: "trajectory \<Rightarrow> residue \<Rightarrow> real" where
  "exposure traj r = 1 - sigmoid (density traj r - lower_median (map (density traj) traj))"

definition score_formula :: "trajectory \<Rightarrow> real" where
  "score_formula traj =
     sum_list (map (\<lambda>r. nonpolar_ind r * exposure traj r) traj) / sum_list (map (exposure traj) traj)"

subsection \<open>The formula of the specification\<close>

text \<open>
  The score as the specification writes it, over residue indices: the distance matrix
  \<open>D\<close>, the unit direction vectors, the angle matrix \<open>\<Phi>\<close>, the two weights, the
  combined weight \<open>W\<close> with zero diagonal, the densities \<open>n\<close>, the exposure terms
  \<open>e\<close> and the quotient. The median is a parameter: \<open>median\<close> is the usual one, the
  mean of the two middle values for an even number of values, and \<open>lower_median\<close> above
  is the one \<^verbatim>\<open>torch.median\<close> computes. The indicator \<open>nonpolar_ind\<close> is the entry of
  the classification vector.
\<close>

definition spec_D :: "trajectory \<Rightarrow> nat \<Rightarrow> nat \<Rightarrow> real" where
  "spec_D traj i j = norm3 (vsub (C_of (traj ! i)) (C_of (traj ! j)))"

definition spec_v :: "trajectory \<Rightarrow> nat \<Rightarrow> vec3" where
  "spec_v traj i =
     scale3 (vsub (C_of (traj ! i)) (CA_of (traj ! i)))
            (norm3 (vsub (C_of (traj ! i)) (CA_of (traj ! i))))"

definition spec_Phi :: "trajectory \<Rightarrow> nat \<Rightarrow> nat \<Rightarrow> real" where
  "spec_Phi traj i j = arccos (clamp (-1) 1 (dot3 (spec_v traj i) (spec_v traj j)))"

definition spec_W_d :: "trajectory \<Rightarrow> nat \<Rightarrow> nat \<Rightarrow> real" where
  "spec_W_d traj i j = 1 / (1 + exp (spec_D traj i j - 1))"

definition spec_W_a :: "trajectory \<Rightarrow> nat \<Rightarrow> nat \<Rightarrow> real" where
  "spec_W_a traj i j = ((cos (pi - spec_Phi traj i j) + 1 / 2) / (3 / 2))\<^sup>2"

definition spec_W :: "trajectory \<Rightarrow> nat \<Rightarrow> nat \<Rightarrow> real" where
  "spec_W traj i j = (if i = j then 0 else spec_W_d traj i j * spec_W_a traj i j)"

definition spec_n :: "trajectory \<Rightarrow> nat \<Rightarrow> real" where
  "spec_n traj i = (\<Sum>j<length traj. spec_W traj i j)"

definition spec_e :: "(real list \<Rightarrow> real) \<Rightarrow> trajectory \<Rightarrow> nat \<Rightarrow> real" where
  "spec_e med traj i = 1 - sigmoid (spec_n traj i - med (map (spec_n traj) [0..<length traj]))"

definition spec_score :: "(real list \<Rightarrow> real) \<Rightarrow> trajectory \<Rightarrow> real" where
  "spec_score med traj =
     (\<Sum>i<length traj. nonpolar_ind (traj ! i) * spec_e med traj i) / (\<Sum>i<length traj. spec_e med traj i)"

definition median :: "real list \<Rightarrow> real" where
  "median xs =
     (let s = sort xs; n = length xs
      in if even n then (s ! (n div 2 - 1) + s ! (n div 2)) / 2 else s ! (n div 2))"

subsection \<open>Example structures\<close>

definition r_val :: residue where
  "r_val = \<lparr>name = ''VAL'', resSeq = ''1'', atom_C = Some (0, 0, 1), atom_CA = Some (0, 0, 0)\<rparr>"

definition r_ser :: residue where
  "r_ser = \<lparr>name = ''SER'', resSeq = ''2'', atom_C = Some (1, 0, 1), atom_CA = Some (1, 0, 0)\<rparr>"

definition r_lys :: residue where
  "r_lys = \<lparr>name = ''LYS'', resSeq = ''3'', atom_C = Some (2, 0, 1), atom_CA = Some (2, 0, 0)\<rparr>"

definition r_leu_bare :: residue where
  "r_leu_bare = \<lparr>name = ''LEU'', resSeq = ''2'', atom_C = None, atom_CA = None\<rparr>"

definition r_deg :: residue where
  "r_deg = \<lparr>name = ''VAL'', resSeq = ''2'', atom_C = Some (1, 0, 0), atom_CA = Some (1, 0, 0)\<rparr>"

definition ld_single :: loader where
  "ld_single = (\<lambda>_. Some [r_val])"

definition ld_none :: loader where
  "ld_none = (\<lambda>_. None)"

definition ld_partial :: loader where
  "ld_partial = (\<lambda>_. Some [r_val, r_leu_bare])"

definition ld_deg :: loader where
  "ld_deg = (\<lambda>_. Some [r_val, r_deg])"

definition ld_bare :: loader where
  "ld_bare = (\<lambda>_. Some [r_leu_bare])"

definition ld_perm :: loader where
  "ld_perm = (\<lambda>p. if p = ''a.pdb'' then Some [r_val, r_ser, r_lys] else Some [r_lys, r_val, r_ser])"

definition q0 :: residue where
  "q0 = \<lparr>name = ''SER'', resSeq = ''1'', atom_C = Some (0, 0, 1), atom_CA = Some (0, 0, 0)\<rparr>"

definition q1 :: residue where
  "q1 = \<lparr>name = ''VAL'', resSeq = ''2'', atom_C = Some (1, 0, 1), atom_CA = Some (1, 0, 0)\<rparr>"

definition q2 :: residue where
  "q2 = \<lparr>name = ''LYS'', resSeq = ''3'', atom_C = Some (2, 0, 1), atom_CA = Some (2, 0, 0)\<rparr>"

definition q3 :: residue where
  "q3 = \<lparr>name = ''GLU'', resSeq = ''4'', atom_C = Some (3, 0, 1), atom_CA = Some (3, 0, 0)\<rparr>"

definition chain4 :: trajectory where
  "chain4 = [q0, q1, q2, q3]"

definition ld_chain4 :: loader where
  "ld_chain4 = (\<lambda>_. Some chain4)"

definition dens_end :: real where
  "dens_end = (distance_weight 1 + distance_weight 2 + distance_weight 3) / 9"

definition dens_mid :: real where
  "dens_mid = (distance_weight 1 + distance_weight 1 + distance_weight 2) / 9"

definition env_same :: env where
  "env_same = \<lparr>md_load = (\<lambda>_. Some [r_ser]), makedirs_ok = (\<lambda>_. True),
                listdir = (\<lambda>_. Some [''zero.pdb'']), copy_ok = (\<lambda>_ _. True)\<rparr>"

definition env_two :: env where
  "env_two = \<lparr>md_load = (\<lambda>p. if p = ''in/bad.pdb'' then None else Some [r_ser]),
               makedirs_ok = (\<lambda>_. True),
               listdir = (\<lambda>_. Some [''bad.pdb'', ''zero.pdb'', ''notes.txt'']),
               copy_ok = (\<lambda>_ _. True)\<rparr>"

section \<open>The tensor program and its closed form\<close>

subsection \<open>Classification loop\<close>

lemma classify_loop_closed:
  "length pre' = length pre \<Longrightarrow>
   classify_loop (length pre) rs
      (pre @ replicate (length rs) (Fin 0), pre' @ replicate (length rs) (Fin 0))
   = (pre @ map np_str rs, pre' @ map p_str rs)"
proof (induction rs arbitrary: pre pre')
  case Nil
  then show ?case by simp
next
  case (Cons r rs)
  let ?n = "replicate (length rs) (Fin 0)"
  have a: "classify_loop (Suc (length pre)) rs (pre @ x # ?n, pre' @ y # ?n)
             = (pre @ x # map np_str rs, pre' @ y # map p_str rs)" for x y
    using Cons.IH[of "pre' @ [y]" "pre @ [x]"] Cons.prems by simp
  have u: "(pre @ Fin 0 # ?n)[length pre := v] = pre @ v # ?n" for v
    by simp
  have u': "(pre' @ Fin 0 # ?n)[length pre := v] = pre' @ v # ?n" for v
    using Cons.prems list_update_length[of pre' "Fin 0" ?n v] by simp
  consider (np) "take 3 r \<in> set non_polar_residues"
    | (p) "take 3 r \<notin> set non_polar_residues" "take 3 r \<in> set polar_residues"
    | (other) "take 3 r \<notin> set non_polar_residues" "take 3 r \<notin> set polar_residues"
    by blast
  then show ?case
  proof cases
    case np
    then show ?thesis using a[of "Fin 1" "Fin 0"] by (simp add: u Let_def np_str_def p_str_def)
  next
    case p
    then show ?thesis using a[of "Fin 0" "Fin 1"] by (simp add: u' Let_def np_str_def p_str_def)
  next
    case other
    then show ?thesis using a[of "Fin 0" "Fin 0"] by (simp add: Let_def np_str_def p_str_def)
  qed
qed

lemma classify_polarity_closed:
  "classify_polarity traj = (map (\<lambda>r. Fin (nonpolar_ind r)) traj, map (\<lambda>r. Fin (polar_ind r)) traj)"
  using classify_loop_closed[of "[]" "[]" "map str_residue traj"]
  by (simp add: classify_polarity_def Let_def np_str_def p_str_def nonpolar_ind_def polar_ind_def comp_def)

subsection \<open>Distances and angles\<close>

lemma wf_residueD:
  "wf_residue r \<Longrightarrow> atom_C r = Some (C_of r) \<and> atom_CA r = Some (CA_of r) \<and> C_of r \<noteq> CA_of r"
  by (auto simp: wf_residue_def C_of_def CA_of_def split: option.splits)

lemma map_filter_C_wf: "list_all wf_residue traj \<Longrightarrow> List.map_filter atom_C traj = map C_of traj"
  by (induction traj) (auto dest: wf_residueD)

lemma map_filter_CA_wf: "list_all wf_residue traj \<Longrightarrow> List.map_filter atom_CA traj = map CA_of traj"
  by (induction traj) (auto dest: wf_residueD)

lemma select_C_wf: "wf_traj traj \<Longrightarrow> select_C traj = Some (map C_of traj)"
  by (simp add: select_C_def wf_traj_def map_filter_C_wf)

lemma select_CA_wf: "wf_traj traj \<Longrightarrow> select_CA traj = Some (map CA_of traj)"
  by (simp add: select_CA_def wf_traj_def map_filter_CA_wf)

lemma map2_same: "map2 f (map g xs) (map h xs) = map (\<lambda>x. f (g x) (h x)) xs"
  by (induction xs) simp_all

lemma broadcast_same_length:
  "length xs = length ys \<Longrightarrow> broadcast f xs ys = Some (map2 f xs ys)"
  by (simp add: broadcast_def)

lemma all_some_map_Some: "all_some (map (\<lambda>x. Some (f x)) xs) = Some (map f xs)"
  by (induction xs) simp_all

lemma broadcast2_square:
  "broadcast2 f (map (\<lambda>x. map (g x) xs) xs) (map (\<lambda>x. map (h x) xs) xs)
     = Some (map (\<lambda>x. map (\<lambda>y. f (g x y) (h x y)) xs) xs)"
  by (simp add: broadcast2_def broadcast_same_length map2_same all_some_map_Some)

lemma norm3_eq_0: "norm3 v = 0 \<longleftrightarrow> v = (0, 0, 0)"
proof (cases v)
  case (fields x y z)
  have "x\<^sup>2 + y\<^sup>2 + z\<^sup>2 = 0 \<longleftrightarrow> x = 0 \<and> y = 0 \<and> z = 0"
    by (smt (verit) zero_le_power2 power2_eq_iff_nonneg zero_eq_power2)
  then show ?thesis using fields by simp
qed

lemma vsub_eq_0: "vsub u v = (0, 0, 0) \<longleftrightarrow> u = v"
  by (cases u; cases v) auto

lemma direction_norm_nz: "wf_residue r \<Longrightarrow> norm3 (direction r) \<noteq> 0"
  by (simp add: norm3_eq_0 direction_def vsub_eq_0 wf_residueD)

lemma vdiv_Fin: "n \<noteq> 0 \<Longrightarrow> vdiv v (Fin n) = (case scale3 v n of (x, y, z) \<Rightarrow> (Fin x, Fin y, Fin z))"
  by (cases v) simp

lemma fdot_Fin:
  "fdot (case u of (x, y, z) \<Rightarrow> (Fin x, Fin y, Fin z)) (case v of (x, y, z) \<Rightarrow> (Fin x, Fin y, Fin z))
     = Fin (dot3 u v)"
  by (cases u; cases v) (simp add: fadd_def fmul_def)

lemma calculate_backbone_neighbors_wf:
  assumes "ld f = Some traj" "wf_traj traj"
  shows "calculate_backbone_neighbors ld f
           = Some (map (\<lambda>r. map (\<lambda>r'. Fin (pair_distance r r')) traj) traj)"
  using assms
  by (simp add: calculate_backbone_neighbors_def load_pdb_def select_C_wf comp_def pair_distance_def)

lemma calculate_angles_wf:
  assumes "wf_traj traj"
  shows "calculate_angles traj = Some (map (\<lambda>r. map (\<lambda>r'. Fin (pair_angle r r')) traj) traj)"
proof -
  have w: "list_all wf_residue traj" using assms by (simp add: wf_traj_def)
  have b: "broadcast vsub (map C_of traj) (map CA_of traj) = Some (map direction traj)"
    by (simp add: broadcast_same_length map2_same direction_def)
  have n: "map2 vdiv (map direction traj) (map (\<lambda>v. Fin (norm3 v)) (map direction traj))
             = map (\<lambda>r. case unit_dir r of (x, y, z) \<Rightarrow> (Fin x, Fin y, Fin z)) traj"
    using w
    by (induction traj) (simp_all add: vdiv_Fin direction_norm_nz unit_dir_def)
  show ?thesis
    apply (simp only: calculate_angles_def Let_def select_C_wf[OF assms] select_CA_wf[OF assms]
        b bind.bind_lunit n)
    apply (simp add: comp_def fdot_Fin pair_angle_def)
    done
qed

subsection \<open>Weights, densities and exposure terms\<close>

lemma map_by_index: "map f xs = map (\<lambda>i. f (xs ! i)) [0..<length xs]"
  by (rule nth_equalityI) simp_all

lemma masked_fill_eye:
  "masked_fill (map (\<lambda>x. map (\<lambda>y. Fin (g x y)) xs) xs) (eye (length xs)) (Fin 0)
     = map (\<lambda>i. map (\<lambda>j. Fin (if i = j then 0 else g (xs ! i) (xs ! j))) [0..<length xs])
         [0..<length xs]"
proof -
  have "map (\<lambda>x. map (\<lambda>y. Fin (g x y)) xs) xs
          = map (\<lambda>i. map (\<lambda>j. Fin (g (xs ! i) (xs ! j))) [0..<length xs]) [0..<length xs]"
    by (rule nth_equalityI) (simp_all add: map_by_index[of _ xs])
  then show ?thesis
    by (simp add: masked_fill_def eye_def map2_same)
qed

lemma fsum_Fin: "fsum (map (\<lambda>x. Fin (f x)) xs) = Fin (sum_list (map f xs))"
  by (induction xs) (simp_all add: fadd_def)

lemma sum_list_skip:
  assumes "i < length xs"
  shows "sum_list (map (\<lambda>j. if i = j then 0 else f (xs ! j)) [0..<length xs])
           = sum_list (map f xs) - (f (xs ! i) :: real)"
proof -
  let ?A = "{0..<length xs}"
  have i: "i \<in> ?A" "finite ?A" using assms by simp_all
  have "sum_list (map (\<lambda>j. if i = j then 0 else f (xs ! j)) [0..<length xs])
          = (\<Sum>j\<in>?A. if i = j then 0 else f (xs ! j))"
    by (simp add: interv_sum_list_conv_sum_set_nat)
  also have "\<dots> = (\<Sum>j\<in>?A - {i}. if i = j then 0 else f (xs ! j))"
    using sum.remove[OF i(2) i(1), of "\<lambda>j. if i = j then 0 else f (xs ! j)"] by simp
  also have "\<dots> = (\<Sum>j\<in>?A - {i}. f (xs ! j))"
    by (rule sum.cong) auto
  also have "\<dots> = (\<Sum>j\<in>?A. f (xs ! j)) - f (xs ! i)"
    using sum.remove[OF i(2) i(1), of "\<lambda>j. f (xs ! j)"] by simp
  also have "(\<Sum>j\<in>?A. f (xs ! j)) = sum_list (map f xs)"
    by (simp add: sum_list_sum_nth)
  finally show ?thesis .
qed

lemma combined_weights_wf:
  "combined_weights_of (map (\<lambda>r. map (\<lambda>r'. Fin (pair_distance r r')) traj) traj)
                       (map (\<lambda>r. map (\<lambda>r'. Fin (pair_angle r r')) traj) traj)
     = Some (map (\<lambda>i. map (\<lambda>j. Fin (if i = j then 0 else pair_weight (traj ! i) (traj ! j)))
                         [0..<length traj]) [0..<length traj])"
proof -
  have "broadcast2 fmul
          (map (map (fmap distance_weight)) (map (\<lambda>r. map (\<lambda>r'. Fin (pair_distance r r')) traj) traj))
          (map (map (fmap angle_weight)) (map (\<lambda>r. map (\<lambda>r'. Fin (pair_angle r r')) traj) traj))
        = Some (map (\<lambda>r. map (\<lambda>r'. Fin (pair_weight r r')) traj) traj)"
    using broadcast2_square[of fmul "\<lambda>r r'. Fin (distance_weight (pair_distance r r'))" traj
                               "\<lambda>r r'. Fin (angle_weight (pair_angle r r'))"]
    by (simp add: comp_def fmul_def pair_weight_def)
  then show ?thesis
    by (simp only: combined_weights_of_def Let_def bind.bind_lunit length_map masked_fill_eye)
qed

lemma row_sums_wf:
  "map fsum (map (\<lambda>i. map (\<lambda>j. Fin (if i = j then 0 else pair_weight (traj ! i) (traj ! j)))
                         [0..<length traj]) [0..<length traj])
     = map (\<lambda>r. Fin (density traj r)) traj"
  by (rule nth_equalityI) (simp_all add: fsum_Fin sum_list_skip density_def)

lemma finite_values_Fin: "finite_values (map (\<lambda>x. Fin (f x)) xs) = Some (map f xs)"
  by (induction xs) simp_all

lemma torch_median_Fin:
  "xs \<noteq> [] \<Longrightarrow> torch_median (map (\<lambda>x. Fin (f x)) xs) = Fin (lower_median (map f xs))"
  by (simp add: torch_median_def finite_values_Fin lower_median_def)

lemma sigmoid_term_wf:
  assumes "traj \<noteq> []"
  shows "sigmoid_term_of (map (\<lambda>i. map (\<lambda>j. Fin (if i = j then 0 else pair_weight (traj ! i) (traj ! j)))
                         [0..<length traj]) [0..<length traj])
          = map (\<lambda>r. Fin (exposure traj r)) traj"
  using assms torch_median_Fin[of traj "density traj"]
  by (simp only: sigmoid_term_of_def row_sums_wf Let_def)
     (simp add: fsub_def exposure_def)

lemma sigmoid_bounds: "0 < sigmoid x" "sigmoid x < 1"
proof -
  have "0 < exp (- x)" by simp
  then show "0 < sigmoid x" "sigmoid x < 1"
    by (simp_all add: sigmoid_def add_pos_pos)
qed

lemma exposure_bounds: "0 < exposure traj r" "exposure traj r < 1"
  using sigmoid_bounds[of "density traj r - lower_median (map (density traj) traj)"]
  by (simp_all add: exposure_def)

lemma sum_list_pos:
  "xs \<noteq> [] \<Longrightarrow> (\<And>x. x \<in> set xs \<Longrightarrow> 0 < f x) \<Longrightarrow> 0 < (sum_list (map f xs) :: real)"
proof (induction xs)
  case Nil
  then show ?case by simp
next
  case (Cons a xs)
  have "0 \<le> sum_list (map f xs)"
    by (rule sum_list_nonneg) (auto simp: Cons.prems(2) less_imp_le)
  moreover have "0 < f a" by (simp add: Cons.prems(2))
  ultimately show ?case by simp
qed

lemma exposure_sum_pos: "traj \<noteq> [] \<Longrightarrow> 0 < sum_list (map (exposure traj) traj)"
  by (rule sum_list_pos) (simp_all add: exposure_bounds)

lemma polar_score_of_wf:
  assumes "traj \<noteq> []"
  shows "polar_score_of (map (\<lambda>r. Fin (nonpolar_ind r)) traj) (map (\<lambda>r. Fin (exposure traj r)) traj)
           = Some (Fin (score_formula traj))"
  using exposure_sum_pos[OF assms]
  by (simp add: polar_score_of_def broadcast_same_length map2_same fmul_def fsum_Fin
      denominator_of_def score_formula_def)

lemma sigmoid_term_for_wf:
  assumes "ld f = Some traj" "wf_traj traj"
  shows "sigmoid_term_for ld f = Some (map (\<lambda>r. Fin (exposure traj r)) traj)"
  using assms
  by (simp add: sigmoid_term_for_def load_pdb_def calculate_backbone_neighbors_wf
      calculate_angles_wf combined_weights_wf sigmoid_term_wf wf_traj_def)

lemma polar_score_try_wf:
  assumes "ld f = Some traj" "wf_traj traj"
  shows "polar_score_try ld f = Some (Fin (score_formula traj))"
  using assms
  by (simp add: polar_score_try_def load_pdb_def calculate_backbone_neighbors_wf
      calculate_angles_wf combined_weights_wf sigmoid_term_wf wf_traj_def
      classify_polarity_closed polar_score_of_wf)

lemma score_returns_wf:
  assumes "ld f = Some traj" "wf_traj traj"
  shows "calculate_surface_polar_score ld f lg = (Some (Fin (score_formula traj)), lg)"
  using assms by (simp add: calculate_surface_polar_score_def polar_score_try_wf)

lemma score_fst: "fst (calculate_surface_polar_score ld p lg) = polar_score_try ld p"
  by (simp add: calculate_surface_polar_score_def split: option.splits)

lemma score_snd:
  "snd (calculate_surface_polar_score ld p lg) =
     (if polar_score_try ld p = None then lg @ [Error_score p] else lg)"
  by (simp add: calculate_surface_polar_score_def split: option.splits)

subsection \<open>Structures outside the data model\<close>

text \<open>
  Two structures on which the tensor program is evaluated directly: a complete valine
  followed by a leucine without backbone atoms, where the single exposure term is
  stretched over both residues, and a valine followed by a residue whose \<^verbatim>\<open>C\<close> and \<^verbatim>\<open>CA\<close>
  atoms coincide, where normalising the zero direction gives NaN. A lone residue without
  backbone atoms raises.
\<close>

lemmas pipeline_defs =
  polar_score_try_def sigmoid_term_for_def load_pdb_def calculate_backbone_neighbors_def
  calculate_angles_def select_C_def select_CA_def broadcast_def broadcast2_def
  combined_weights_of_def eye_def masked_fill_def sigmoid_term_of_def torch_median_def
  polar_score_of_def denominator_of_def fadd_def fsub_def fmul_def sigmoid_def Let_def

lemma partial_terms: "sigmoid_term_for ld_partial p = Some [Fin (1 / 2)]"
  by (simp add: pipeline_defs ld_partial_def r_val_def r_leu_bare_def)

lemma partial_score: "polar_score_try ld_partial p = Some (Fin 2)"
  by (simp add: pipeline_defs classify_polarity_closed ld_partial_def r_val_def r_leu_bare_def
      nonpolar_ind_def str_residue_def non_polar_residues_def)

lemma partial_classes: "fst (classify_polarity [r_val, r_leu_bare]) = [Fin 1, Fin 1]"
  by (simp add: classify_polarity_closed nonpolar_ind_def str_residue_def non_polar_residues_def
      r_val_def r_leu_bare_def)

lemma deg_terms: "sigmoid_term_for ld_deg p = Some [NaN, NaN]"
  by (simp add: pipeline_defs ld_deg_def r_val_def r_deg_def)

lemma deg_score: "polar_score_try ld_deg p = Some NaN"
  by (simp add: pipeline_defs classify_polarity_closed ld_deg_def r_val_def r_deg_def)

lemma deg_classes: "fst (classify_polarity [r_val, r_deg]) = [Fin 1, Fin 1]"
  by (simp add: classify_polarity_closed nonpolar_ind_def str_residue_def non_polar_residues_def
      r_val_def r_deg_def)

lemma bare_terms: "sigmoid_term_for ld_bare p = None"
  by (simp add: pipeline_defs ld_bare_def r_leu_bare_def)

section \<open>Properties of the score\<close>

lemma nonpolar_ind_cases: "nonpolar_ind r = 0 \<or> nonpolar_ind r = 1"
  by (simp add: nonpolar_ind_def)

lemma score_formula_bounds:
  assumes "traj \<noteq> []"
  shows "0 \<le> score_formula traj" "score_formula traj \<le> 1"
proof -
  let ?num = "sum_list (map (\<lambda>r. nonpolar_ind r * exposure traj r) traj)"
  let ?den = "sum_list (map (exposure traj) traj)"
  have den: "0 < ?den" by (rule exposure_sum_pos[OF assms])
  have t: "0 \<le> nonpolar_ind r * exposure traj r \<and> nonpolar_ind r * exposure traj r \<le> exposure traj r" for r
    using nonpolar_ind_cases[of r] exposure_bounds(1)[of traj r] by auto
  have "0 \<le> ?num" by (rule sum_list_nonneg) (auto simp: t)
  moreover have "?num \<le> ?den" by (rule sum_list_mono) (simp add: t)
  ultimately show "0 \<le> score_formula traj" "score_formula traj \<le> 1"
    using den by (simp_all add: score_formula_def)
qed

text \<open>
  Claim C2 says that the score is between 0 and 1 for every structure with a nonzero
  denominator. For the valine followed by a leucine without backbone atoms the
  denominator is one half and the score is 2; for the structure with coinciding atoms
  the score is NaN.
\<close>

theorem score_outside_unit_interval:
  "ld_partial ''x.pdb'' = Some [r_val, r_leu_bare] \<and>
   map_option denominator_of (sigmoid_term_for ld_partial ''x.pdb'') = Some (Fin (1 / 2)) \<and>
   fst (calculate_surface_polar_score ld_partial ''x.pdb'' []) = Some (Fin 2) \<and>
   ld_deg ''y.pdb'' = Some [r_val, r_deg] \<and>
   fst (calculate_surface_polar_score ld_deg ''y.pdb'' []) = Some NaN"
proof -
  have l: "ld_partial ''x.pdb'' = Some [r_val, r_leu_bare]" "ld_deg ''y.pdb'' = Some [r_val, r_deg]"
    by (simp_all add: ld_partial_def ld_deg_def)
  show ?thesis
    by (simp add: l score_fst partial_terms partial_score deg_score denominator_of_def fadd_def)
qed

text \<open>
  Claim C2, amended. For every structure with at least one residue in which every residue
  has its backbone \<^verbatim>\<open>C\<close> and \<^verbatim>\<open>CA\<close> atoms, at different positions, the scorer returns a
  number in the closed interval from 0 to 1. The denominator is never zero for such a
  structure.
\<close>

theorem score_in_unit_interval:
  assumes "ld f = Some traj" "wf_traj traj"
  shows "\<exists>s. fst (calculate_surface_polar_score ld f lg) = Some (Fin s) \<and> 0 \<le> s \<and> s \<le> 1"
  using assms score_formula_bounds[of traj]
  by (simp add: score_returns_wf wf_traj_def)

lemma wf_examples: "wf_residue r_val" "wf_residue r_ser" "wf_residue r_lys"
  by (simp_all add: wf_residue_def r_val_def r_ser_def r_lys_def)

theorem score_in_unit_interval_witness:
  "wf_traj [r_val, r_ser] \<and>
   (\<exists>s. fst (calculate_surface_polar_score (\<lambda>_. Some [r_val, r_ser]) ''a.pdb'' []) = Some (Fin s)
        \<and> 0 \<le> s \<and> s \<le> 1)"
proof -
  have w: "wf_traj [r_val, r_ser]" by (simp add: wf_traj_def wf_examples)
  show ?thesis
    using w score_in_unit_interval[of "\<lambda>_. Some [r_val, r_ser]" "''a.pdb''" "[r_val, r_ser]" "[]", OF refl w]
    by simp
qed

lemma score_formula_none:
  assumes "\<forall>r\<in>set traj. nonpolar_ind r = 0"
  shows "score_formula traj = 0"
proof -
  have h: "map (\<lambda>r. nonpolar_ind r * exposure traj r) traj = map (\<lambda>r. 0) traj"
    using assms by simp
  show ?thesis unfolding score_formula_def h by simp
qed

lemma score_formula_all:
  assumes "traj \<noteq> []" "\<forall>r\<in>set traj. nonpolar_ind r = 1"
  shows "score_formula traj = 1"
proof -
  have h: "map (\<lambda>r. nonpolar_ind r * exposure traj r) traj = map (exposure traj) traj"
    using assms by simp
  show ?thesis unfolding score_formula_def h using exposure_sum_pos[OF assms(1)] by simp
qed

text \<open>
  Claim C6 says that the score is 1 whenever every residue is classified non-polar. The
  two structures above consist of non-polar residues only; their scores are 2 and NaN.
\<close>

theorem all_non_polar_not_one:
  "ld_partial ''x.pdb'' = Some [r_val, r_leu_bare] \<and>
   fst (classify_polarity [r_val, r_leu_bare]) = [Fin 1, Fin 1] \<and>
   fst (calculate_surface_polar_score ld_partial ''x.pdb'' []) = Some (Fin 2) \<and>
   ld_deg ''y.pdb'' = Some [r_val, r_deg] \<and>
   fst (classify_polarity [r_val, r_deg]) = [Fin 1, Fin 1] \<and>
   fst (calculate_surface_polar_score ld_deg ''y.pdb'' []) = Some NaN"
proof -
  have l: "ld_partial ''x.pdb'' = Some [r_val, r_leu_bare]" "ld_deg ''y.pdb'' = Some [r_val, r_deg]"
    by (simp_all add: ld_partial_def ld_deg_def)
  show ?thesis
    by (simp add: l score_fst partial_classes partial_score deg_classes deg_score)
qed

text \<open>
  Claim C6, amended. For a structure with at least one residue in which every residue has
  its backbone \<^verbatim>\<open>C\<close> and \<^verbatim>\<open>CA\<close> atoms, at different positions: if no residue is classified
  non-polar the score is 0, and if every residue is classified non-polar it is 1.
\<close>

theorem score_extremes:
  assumes "ld f = Some traj" "wf_traj traj"
  shows "(list_all (\<lambda>x. x = Fin 0) (fst (classify_polarity traj)) \<longrightarrow>
            fst (calculate_surface_polar_score ld f lg) = Some (Fin 0)) \<and>
         (list_all (\<lambda>x. x = Fin 1) (fst (classify_polarity traj)) \<longrightarrow>
            fst (calculate_surface_polar_score ld f lg) = Some (Fin 1))"
  using assms score_formula_none[of traj] score_formula_all[of traj]
  by (simp add: score_returns_wf wf_traj_def classify_polarity_closed list_all_iff)

lemma classify_examples:
  "fst (classify_polarity [r_ser, r_lys]) = [Fin 0, Fin 0]"
  "fst (classify_polarity [r_val]) = [Fin 1]"
  by (simp_all add: classify_polarity_closed nonpolar_ind_def str_residue_def non_polar_residues_def
      r_val_def r_ser_def r_lys_def)

theorem score_extremes_witness:
  "wf_traj [r_ser, r_lys] \<and> list_all (\<lambda>x. x = Fin 0) (fst (classify_polarity [r_ser, r_lys])) \<and>
   fst (calculate_surface_polar_score (\<lambda>_. Some [r_ser, r_lys]) ''a.pdb'' []) = Some (Fin 0) \<and>
   wf_traj [r_val] \<and> list_all (\<lambda>x. x = Fin 1) (fst (classify_polarity [r_val])) \<and>
   fst (calculate_surface_polar_score (\<lambda>_. Some [r_val]) ''b.pdb'' []) = Some (Fin 1)"
proof -
  have w: "wf_traj [r_ser, r_lys]" "wf_traj [r_val]" by (simp_all add: wf_traj_def wf_examples)
  show ?thesis
    using w classify_examples
      score_extremes[of "\<lambda>_. Some [r_ser, r_lys]" "''a.pdb''" "[r_ser, r_lys]" "[]", OF refl w(1)]
      score_extremes[of "\<lambda>_. Some [r_val]" "''b.pdb''" "[r_val]" "[]", OF refl w(2)]
    by simp
qed

text \<open>
  Claim C9 says that the exposure terms of every structure with at least one residue lie
  strictly between 0 and 1. For the structure with coinciding atoms both exposure terms
  and the score are NaN, and for a lone residue without backbone atoms the scorer raises
  before any exposure term exists.
\<close>

theorem exposure_terms_undefined:
  "ld_deg ''y.pdb'' = Some [r_val, r_deg] \<and>
   sigmoid_term_for ld_deg ''y.pdb'' = Some [NaN, NaN] \<and>
   fst (calculate_surface_polar_score ld_deg ''y.pdb'' []) = Some NaN \<and>
   ld_bare ''z.pdb'' = Some [r_leu_bare] \<and>
   sigmoid_term_for ld_bare ''z.pdb'' = None"
proof -
  have l: "ld_deg ''y.pdb'' = Some [r_val, r_deg]" "ld_bare ''z.pdb'' = Some [r_leu_bare]"
    by (simp_all add: ld_deg_def ld_bare_def)
  show ?thesis
    by (simp add: l score_fst deg_terms deg_score bare_terms)
qed

text \<open>
  Claim C9, amended. For a structure with at least one residue in which every residue has
  its backbone \<^verbatim>\<open>C\<close> and \<^verbatim>\<open>CA\<close> atoms, at different positions, every exposure term is a
  number strictly between 0 and 1, their sum (the denominator) is strictly positive, so
  the final division is defined and the scorer returns a number; for a single residue
  the denominator is one half.
\<close>

theorem exposure_terms_positive:
  assumes "ld f = Some traj" "wf_traj traj"
  shows "\<exists>es. sigmoid_term_for ld f = Some es \<and> length es = length traj \<and>
              (\<forall>e\<in>set es. \<exists>x. e = Fin x \<and> 0 < x \<and> x < 1) \<and>
              (\<exists>d. denominator_of es = Fin d \<and> 0 < d) \<and>
              (length traj = 1 \<longrightarrow> denominator_of es = Fin (1 / 2)) \<and>
              (\<exists>s. fst (calculate_surface_polar_score ld f lg) = Some (Fin s))"
proof -
  let ?es = "map (\<lambda>r. Fin (exposure traj r)) traj"
  have ne: "traj \<noteq> []" using assms(2) by (simp add: wf_traj_def)
  have 1: "sigmoid_term_for ld f = Some ?es" using assms by (simp add: sigmoid_term_for_wf)
  have 2: "\<forall>e\<in>set ?es. \<exists>x. e = Fin x \<and> 0 < x \<and> x < 1"
    using exposure_bounds by auto
  have 3: "denominator_of ?es = Fin (sum_list (map (exposure traj) traj))"
    by (simp add: denominator_of_def fsum_Fin)
  have 4: "length traj = 1 \<longrightarrow> sum_list (map (exposure traj) traj) = 1 / 2"
  proof
    assume "length traj = 1"
    then obtain r where r: "traj = [r]" by (cases traj) auto
    show "sum_list (map (exposure traj) traj) = 1 / 2"
      by (simp add: r exposure_def density_def lower_median_def sigmoid_def)
  qed
  show ?thesis
    using 1 2 3 4 exposure_sum_pos[OF ne] score_returns_wf[of ld f traj lg] assms
    by (intro exI[of _ ?es]) simp
qed

theorem exposure_terms_positive_witness:
  "wf_traj [r_val] \<and>
   (\<exists>es. sigmoid_term_for (\<lambda>_. Some [r_val]) ''a.pdb'' = Some es \<and> length es = length [r_val] \<and>
              (\<forall>e\<in>set es. \<exists>x. e = Fin x \<and> 0 < x \<and> x < 1) \<and>
              (\<exists>d. denominator_of es = Fin d \<and> 0 < d) \<and>
              denominator_of es = Fin (1 / 2) \<and>
              (\<exists>s. fst (calculate_surface_polar_score (\<lambda>_. Some [r_val]) ''a.pdb'' []) = Some (Fin s)))"
proof -
  have w: "wf_traj [r_val]" by (simp add: wf_traj_def wf_examples)
  show ?thesis
    using w exposure_terms_positive[of "\<lambda>_. Some [r_val]" "''a.pdb''" "[r_val]" "[]"]
    by simp
qed

subsection \<open>Single residues\<close>

lemma single_residue_try:
  assumes "ld f = Some [r]" "atom_C r = Some c" "atom_CA r = Some a"
  shows "polar_score_try ld f = Some (Fin (nonpolar_ind r))"
proof -
  obtain x y z where v: "vsub c a = (x, y, z)" by (cases "vsub c a")
  show ?thesis
    using assms v
    by (simp add: polar_score_try_def load_pdb_def calculate_backbone_neighbors_def
        calculate_angles_def select_C_def select_CA_def broadcast_def broadcast2_def
        combined_weights_of_def eye_def masked_fill_def sigmoid_term_of_def torch_median_def
        polar_score_of_def denominator_of_def classify_polarity_closed fadd_def fsub_def fmul_def
        sigmoid_def Let_def)
qed

lemma single_residue_terms:
  assumes "ld f = Some [r]" "atom_C r = Some c" "atom_CA r = Some a"
  shows "sigmoid_term_for ld f = Some [Fin (1 / 2)]"
proof -
  obtain x y z where v: "vsub c a = (x, y, z)" by (cases "vsub c a")
  show ?thesis
    using assms v by (simp add: pipeline_defs)
qed

text \<open>
  Claim C3 says that a single-residue structure is rejected with an error. The script has
  no such check: for one residue the only weight is the masked diagonal entry, the density
  and its median are 0, the exposure term is one half, and the scorer returns the
  residue's non-polar indicator without logging anything.
\<close>

theorem single_residue_not_rejected:
  "fst (calculate_surface_polar_score ld_single ''one.pdb'' []) = Some (Fin 1) \<and>
   snd (calculate_surface_polar_score ld_single ''one.pdb'' []) = []"
  using single_residue_try[of ld_single "''one.pdb''" r_val "(0, 0, 1)" "(0, 0, 0)"]
  by (simp add: calculate_surface_polar_score_def ld_single_def r_val_def nonpolar_ind_def
      str_residue_def non_polar_residues_def)

text \<open>
  Claim C3, amended. For every single-residue structure whose residue has its backbone
  \<^verbatim>\<open>C\<close> and \<^verbatim>\<open>CA\<close> atoms, the scorer returns the non-polar indicator of that residue
  (1 or 0) and leaves the log unchanged; the denominator is one half.
\<close>

theorem single_residue_scored:
  assumes "ld f = Some [r]" "atom_C r = Some c" "atom_CA r = Some a"
  shows "calculate_surface_polar_score ld f lg = (Some (Fin (nonpolar_ind r)), lg) \<and>
         map_option denominator_of (sigmoid_term_for ld f) = Some (Fin (1 / 2))"
  using assms single_residue_try[of ld f r c a] single_residue_terms[of ld f r c a]
  by (simp add: calculate_surface_polar_score_def denominator_of_def fadd_def)

theorem single_residue_scored_witness:
  "ld_single ''one.pdb'' = Some [r_val] \<and> atom_C r_val = Some (0, 0, 1) \<and>
   atom_CA r_val = Some (0, 0, 0) \<and>
   calculate_surface_polar_score ld_single ''one.pdb'' [] = (Some (Fin (nonpolar_ind r_val)), []) \<and>
   map_option denominator_of (sigmoid_term_for ld_single ''one.pdb'') = Some (Fin (1 / 2))"
proof -
  have h: "ld_single ''one.pdb'' = Some [r_val]" "atom_C r_val = Some (0, 0, 1)"
    "atom_CA r_val = Some (0, 0, 0)"
    by (simp_all add: ld_single_def r_val_def)
  show ?thesis
    using h single_residue_scored[of ld_single "''one.pdb''" r_val "(0, 0, 1)" "(0, 0, 0)" "[]"] by simp
qed

subsection \<open>Permutations of the residues\<close>

lemma sum_list_map_mset:
  fixes f :: "'a \<Rightarrow> real"
  assumes "mset xs = mset ys"
  shows "sum_list (map f xs) = sum_list (map f ys)"
proof -
  have "sum_list (map f xs) = sum_mset (image_mset f (mset xs))"
    by (metis mset_map sum_mset_sum_list)
  also have "\<dots> = sum_mset (image_mset f (mset ys))" by (simp add: assms)
  also have "\<dots> = sum_list (map f ys)" by (metis mset_map sum_mset_sum_list)
  finally show ?thesis .
qed

lemma density_mset: "mset traj' = mset traj \<Longrightarrow> density traj' r = density traj r"
  by (simp add: density_def sum_list_map_mset[of traj' traj])

lemma lower_median_mset:
  assumes "mset xs = mset ys" shows "lower_median xs = lower_median ys"
proof -
  have "sort xs = sort ys"
    using assms by (intro properties_for_sort) simp_all
  moreover have "length xs = length ys" using assms by (rule mset_eq_length)
  ultimately show ?thesis by (simp add: lower_median_def)
qed

lemma exposure_mset:
  assumes "mset traj' = mset traj" shows "exposure traj' r = exposure traj r"
proof -
  have d: "density traj' = density traj"
    using density_mset[OF assms] by auto
  have "mset (map (density traj) traj') = mset (map (density traj) traj)"
    using assms by simp
  then have "lower_median (map (density traj) traj') = lower_median (map (density traj) traj)"
    by (rule lower_median_mset)
  then show ?thesis
    by (simp add: exposure_def d)
qed

lemma score_formula_mset:
  assumes "mset traj' = mset traj" shows "score_formula traj' = score_formula traj"
proof -
  have e: "exposure traj' = exposure traj" using exposure_mset[OF assms] by auto
  show ?thesis
    unfolding score_formula_def e
    using sum_list_map_mset[OF assms, of "exposure traj"]
      sum_list_map_mset[OF assms, of "\<lambda>r. nonpolar_ind r * exposure traj r"]
    by simp
qed

lemma wf_traj_mset: "mset traj' = mset traj \<Longrightarrow> wf_traj traj \<Longrightarrow> wf_traj traj'"
  by (metis wf_traj_def list_all_iff mset_eq_setD mset_zero_iff)

text \<open>
  Claim C5. A residue carries its name and its two backbone positions, so reordering the
  residue list permutes the coordinates and the classification consistently. The score
  of a reordered structure is the score of the original one.
\<close>

theorem score_permutation_invariant:
  assumes "ld f = Some traj" "ld f' = Some traj'" "wf_traj traj" "mset traj' = mset traj"
  shows "fst (calculate_surface_polar_score ld f' lg) = fst (calculate_surface_polar_score ld f lg)"
  using assms wf_traj_mset[of traj' traj] score_formula_mset[of traj' traj]
  by (simp add: score_returns_wf)

theorem score_permutation_invariant_witness:
  "ld_perm ''a.pdb'' = Some [r_val, r_ser, r_lys] \<and> ld_perm ''b.pdb'' = Some [r_lys, r_val, r_ser] \<and>
   wf_traj [r_val, r_ser, r_lys] \<and> mset [r_lys, r_val, r_ser] = mset [r_val, r_ser, r_lys] \<and>
   fst (calculate_surface_polar_score ld_perm ''b.pdb'' [])
     = fst (calculate_surface_polar_score ld_perm ''a.pdb'' [])"
proof -
  have h: "ld_perm ''a.pdb'' = Some [r_val, r_ser, r_lys]" "ld_perm ''b.pdb'' = Some [r_lys, r_val, r_ser]"
    "wf_traj [r_val, r_ser, r_lys]" "mset [r_lys, r_val, r_ser] = mset [r_val, r_ser, r_lys]"
    by (simp_all add: ld_perm_def wf_traj_def wf_examples)
  show ?thesis
    using h score_permutation_invariant[OF h, of "[]"] by simp
qed

section \<open>The two weights\<close>

lemma distance_weight_strict_antimono:
  assumes "d1 < d2" shows "distance_weight d2 < distance_weight d1"
proof -
  have "exp (d1 - m_const) < exp (d2 - m_const)" using assms by simp
  moreover have "0 < 1 + exp (d1 - m_const)" by (simp add: add_pos_pos)
  ultimately show ?thesis
    unfolding distance_weight_def by (simp add: frac_less2)
qed

lemma angle_weight_alt: "angle_weight \<phi> = ((1 / 2 - cos \<phi>) / (3 / 2))\<^sup>2"
  by (simp add: angle_weight_def a_const_def b_const_def)

lemma angle_weight_pi: "angle_weight pi = 1"
  by (simp add: angle_weight_alt)

lemma angle_weight_le_1: "angle_weight \<phi> \<le> 1"
proof -
  have "\<bar>(1 / 2 - cos \<phi>) / (3 / 2)\<bar> \<le> 1"
    using cos_ge_minus_one[of \<phi>] cos_le_one[of \<phi>] by (simp add: abs_le_iff, linarith)
  then show ?thesis
    unfolding angle_weight_alt by (simp add: abs_square_le_1)
qed

lemma angle_weight_upper_branch:
  assumes "pi / 3 \<le> \<phi>1" "\<phi>1 < \<phi>2" "\<phi>2 \<le> pi"
  shows "angle_weight \<phi>1 < angle_weight \<phi>2"
proof -
  have pos: "0 \<le> pi / 3" by simp
  have "cos \<phi>2 < cos \<phi>1"
    using assms pos by (intro cos_monotone_0_pi) linarith+
  moreover have "cos \<phi>1 \<le> cos (pi / 3)"
    using assms pos by (intro cos_monotone_0_pi_le) linarith+
  ultimately have "0 \<le> (1 / 2 - cos \<phi>1) / (3 / 2)"
    "(1 / 2 - cos \<phi>1) / (3 / 2) < (1 / 2 - cos \<phi>2) / (3 / 2)"
    by (simp_all add: cos_60)
  then show ?thesis
    unfolding angle_weight_alt by (intro power_strict_mono) simp_all
qed

lemma angle_weight_lower_branch:
  assumes "0 \<le> \<phi>1" "\<phi>1 < \<phi>2" "\<phi>2 \<le> pi / 3"
  shows "angle_weight \<phi>2 < angle_weight \<phi>1"
proof -
  have pos: "pi / 3 \<le> pi" by simp
  have "cos \<phi>2 < cos \<phi>1"
    using assms pos by (intro cos_monotone_0_pi) linarith+
  moreover have "cos (pi / 3) \<le> cos \<phi>2"
    using assms pos by (intro cos_monotone_0_pi_le) linarith+
  ultimately have "0 \<le> (cos \<phi>2 - 1 / 2) / (3 / 2)"
    "(cos \<phi>2 - 1 / 2) / (3 / 2) < (cos \<phi>1 - 1 / 2) / (3 / 2)"
    by (simp_all add: cos_60)
  then have "((cos \<phi>2 - 1 / 2) / (3 / 2))\<^sup>2 < ((cos \<phi>1 - 1 / 2) / (3 / 2))\<^sup>2"
    by (intro power_strict_mono) simp_all
  moreover have "((1 / 2 - cos x) / (3 / 2))\<^sup>2 = ((cos x - 1 / 2) / (3 / 2))\<^sup>2" for x :: real
    by (simp add: power2_eq_square field_simps)
  ultimately show ?thesis
    unfolding angle_weight_alt by simp
qed

lemma angle_weight_values: "angle_weight 0 = 1 / 9" "angle_weight (pi / 3) = 0"
  by (simp_all add: angle_weight_alt cos_60 power2_eq_square)

text \<open>
  Claim C7 says that the angle weight decreases as the angle moves away from \<open>\<pi>\<close>. With
  the even exponent it does so only down to \<open>\<pi>/3\<close>, where it is 0; the angle 0 is further
  from \<open>\<pi>\<close> than \<open>\<pi>/3\<close> is and has the larger weight 1/9.
\<close>

theorem angle_weight_not_monotone:
  "\<bar>pi - pi / 3\<bar> < \<bar>pi - 0\<bar> \<and> angle_weight (pi / 3) < angle_weight 0"
  by (simp add: angle_weight_values)

text \<open>
  Claim C7, amended. The distance weight is strictly decreasing in the distance. The
  angle weight is at most its value 1 at \<open>\<pi>\<close>; it strictly decreases as the angle goes
  from \<open>\<pi>\<close> down to \<open>\<pi>/3\<close>, where it is 0, and strictly increases again from there down
  to the angle 0, where it is 1/9.
\<close>

theorem weight_monotonicity:
  "(\<forall>d1 d2. d1 < d2 \<longrightarrow> distance_weight d2 < distance_weight d1) \<and>
   (\<forall>\<phi>. angle_weight \<phi> \<le> angle_weight pi) \<and> angle_weight pi = 1 \<and>
   (\<forall>\<phi>1 \<phi>2. pi / 3 \<le> \<phi>1 \<and> \<phi>1 < \<phi>2 \<and> \<phi>2 \<le> pi \<longrightarrow> angle_weight \<phi>1 < angle_weight \<phi>2) \<and>
   (\<forall>\<phi>1 \<phi>2. 0 \<le> \<phi>1 \<and> \<phi>1 < \<phi>2 \<and> \<phi>2 \<le> pi / 3 \<longrightarrow> angle_weight \<phi>2 < angle_weight \<phi>1) \<and>
   angle_weight (pi / 3) = 0 \<and> angle_weight 0 = 1 / 9"
  using distance_weight_strict_antimono angle_weight_le_1 angle_weight_pi
    angle_weight_upper_branch angle_weight_lower_branch angle_weight_values
  by simp

theorem weight_monotonicity_witness:
  "(0::real) < 1 \<and> distance_weight 1 < distance_weight 0 \<and>
   pi / 3 \<le> pi / 2 \<and> pi / 2 < pi \<and> pi \<le> pi \<and> angle_weight (pi / 2) < angle_weight pi \<and>
   (0::real) \<le> 0 \<and> 0 < pi / 3 \<and> pi / 3 \<le> pi / 3 \<and> angle_weight (pi / 3) < angle_weight 0"
proof -
  have h: "(0::real) < 1" "pi / 3 \<le> pi / 2 \<and> pi / 2 < pi \<and> pi \<le> pi"
    "(0::real) \<le> 0 \<and> 0 < pi / 3 \<and> pi / 3 \<le> pi / 3"
    by simp_all
  show ?thesis
    using h weight_monotonicity by blast
qed

section \<open>Residue classification\<close>

lemma set_non_polar: "set non_polar_residues = {''ILE'', ''LEU'', ''MET'', ''TRP'', ''PHE'', ''VAL''}"
  by (simp add: non_polar_residues_def)

lemma set_polar: "set polar_residues = {''SER'', ''THR'', ''TYR'', ''ASN'', ''GLN''}"
  by (simp add: polar_residues_def)

lemma polar_disjoint: "s \<in> set non_polar_residues \<Longrightarrow> s \<notin> set polar_residues"
  by (auto simp: non_polar_residues_def polar_residues_def)

text \<open>
  Claim C8. Classification never fails and yields two indicator vectors of the length of
  the residue list. For a residue with a three-letter name the non-polar indicator is 1
  exactly for ILE, LEU, MET, TRP, PHE and VAL, the polar indicator is 1 exactly for SER,
  THR, TYR, ASN and GLN, every other name has both indicators 0, and no residue has both
  indicators set.
\<close>

theorem classify_polarity_disjoint_classes:
  "length (fst (classify_polarity traj)) = length traj \<and>
   length (snd (classify_polarity traj)) = length traj \<and>
   (\<forall>i<length traj. length (name (traj ! i)) = 3 \<longrightarrow>
      fst (classify_polarity traj) ! i =
        (if name (traj ! i) \<in> {''ILE'', ''LEU'', ''MET'', ''TRP'', ''PHE'', ''VAL''} then Fin 1 else Fin 0) \<and>
      snd (classify_polarity traj) ! i =
        (if name (traj ! i) \<in> {''SER'', ''THR'', ''TYR'', ''ASN'', ''GLN''} then Fin 1 else Fin 0)) \<and>
   (\<forall>i<length traj. \<not> (fst (classify_polarity traj) ! i = Fin 1 \<and> snd (classify_polarity traj) ! i = Fin 1))"
proof -
  have "take 3 (str_residue r) = name r" if "length (name r) = 3" for r
    using that by (simp add: str_residue_def)
  then show ?thesis
    using polar_disjoint
    by (auto simp: classify_polarity_closed nonpolar_ind_def polar_ind_def
        set_non_polar[symmetric] set_polar[symmetric])
qed

theorem classify_polarity_disjoint_classes_witness:
  "(0::nat) < length [r_val, r_ser, r_lys] \<and> length (name ([r_val, r_ser, r_lys] ! 0)) = 3 \<and>
   fst (classify_polarity [r_val, r_ser, r_lys]) ! 0 = Fin 1 \<and>
   snd (classify_polarity [r_val, r_ser, r_lys]) ! 0 = Fin 0 \<and>
   \<not> (fst (classify_polarity [r_val, r_ser, r_lys]) ! 0 = Fin 1 \<and>
      snd (classify_polarity [r_val, r_ser, r_lys]) ! 0 = Fin 1)"
proof -
  have h: "(0::nat) < length [r_val, r_ser, r_lys]" "length (name ([r_val, r_ser, r_lys] ! 0)) = 3"
    "name ([r_val, r_ser, r_lys] ! 0) = ''VAL''"
    by (simp_all add: r_val_def)
  show ?thesis
    using h classify_polarity_disjoint_classes[of "[r_val, r_ser, r_lys]"]
    by (auto simp del: nth_Cons_0)
qed

section \<open>The score and the formula of the specification\<close>

lemma spec_W_pair_weight:
  "spec_W traj i j = (if i = j then 0 else pair_weight (traj ! i) (traj ! j))"
  by (simp add: spec_W_def spec_W_d_def spec_W_a_def spec_Phi_def spec_v_def spec_D_def
      pair_weight_def pair_distance_def pair_angle_def unit_dir_def direction_def
      distance_weight_def angle_weight_def m_const_def a_const_def b_const_def)

lemma spec_n_density:
  assumes "i < length traj" shows "spec_n traj i = density traj (traj ! i)"
proof -
  have "spec_n traj i = sum_list (map (\<lambda>j. if i = j then 0 else pair_weight (traj ! i) (traj ! j)) [0..<length traj])"
    by (simp add: spec_n_def spec_W_pair_weight interv_sum_list_conv_sum_set_nat lessThan_atLeast0)
  then show ?thesis
    using sum_list_skip[OF assms, of "pair_weight (traj ! i)"] by (simp add: density_def)
qed

lemma spec_n_list: "map (spec_n traj) [0..<length traj] = map (density traj) traj"
  by (rule nth_equalityI) (simp_all add: spec_n_density)

lemma sum_lessThan_nth: "(\<Sum>i<length xs. f (xs ! i)) = sum_list (map f xs)"
  by (simp add: sum_list_sum_nth lessThan_atLeast0)

lemma spec_score_general:
  "spec_score med traj =
     sum_list (map (\<lambda>r. nonpolar_ind r * (1 - sigmoid (density traj r - med (map (density traj) traj)))) traj)
     / sum_list (map (\<lambda>r. 1 - sigmoid (density traj r - med (map (density traj) traj))) traj)"
proof -
  let ?g = "\<lambda>r. 1 - sigmoid (density traj r - med (map (density traj) traj))"
  have e: "spec_e med traj i = ?g (traj ! i)" if "i < length traj" for i
    using that by (simp add: spec_e_def spec_n_list spec_n_density)
  have "(\<Sum>i<length traj. spec_e med traj i) = (\<Sum>i<length traj. ?g (traj ! i))"
    by (rule sum.cong) (simp_all add: e)
  moreover have "(\<Sum>i<length traj. nonpolar_ind (traj ! i) * spec_e med traj i)
                   = (\<Sum>i<length traj. nonpolar_ind (traj ! i) * ?g (traj ! i))"
    by (rule sum.cong) (simp_all add: e)
  ultimately show ?thesis
    unfolding spec_score_def
    using sum_lessThan_nth[of ?g traj] sum_lessThan_nth[of "\<lambda>r. nonpolar_ind r * ?g r" traj]
    by simp
qed

lemma spec_score_lower_median: "spec_score lower_median traj = score_formula traj"
proof -
  have "exposure traj = (\<lambda>r. 1 - sigmoid (density traj r - lower_median (map (density traj) traj)))"
    by (rule ext) (simp add: exposure_def)
  then show ?thesis
    unfolding spec_score_general score_formula_def by simp
qed

subsection \<open>A chain of four residues\<close>

text \<open>
  Four residues on a line, one unit apart, with parallel directions. The two inner
  residues have the larger density, so the two middle values of the sorted densities
  differ and the lower median is not the usual median.
\<close>

lemmas q_defs = q0_def q1_def q2_def q3_def

lemma chain4_wf: "wf_traj chain4"
  by (simp add: wf_traj_def chain4_def wf_residue_def q_defs)

lemma chain4_unit_dir:
  "unit_dir q0 = (0, 0, 1)" "unit_dir q1 = (0, 0, 1)" "unit_dir q2 = (0, 0, 1)" "unit_dir q3 = (0, 0, 1)"
  by (simp_all add: q_defs unit_dir_def direction_def C_of_def CA_of_def)

lemma same_dir_weight:
  "unit_dir r = (0, 0, 1) \<Longrightarrow> unit_dir r' = (0, 0, 1) \<Longrightarrow> angle_weight (pair_angle r r') = 1 / 9"
  by (simp add: pair_angle_def clamp_def angle_weight_values)

lemma sqrt9: "sqrt 9 = 3"
  using real_sqrt_abs[of 3] by simp

lemma chain4_distance:
  "pair_distance q0 q0 = 0" "pair_distance q0 q1 = 1" "pair_distance q0 q2 = 2" "pair_distance q0 q3 = 3"
  "pair_distance q1 q0 = 1" "pair_distance q1 q1 = 0" "pair_distance q1 q2 = 1" "pair_distance q1 q3 = 2"
  "pair_distance q2 q0 = 2" "pair_distance q2 q1 = 1" "pair_distance q2 q2 = 0" "pair_distance q2 q3 = 1"
  "pair_distance q3 q0 = 3" "pair_distance q3 q1 = 2" "pair_distance q3 q2 = 1" "pair_distance q3 q3 = 0"
  by (simp_all add: q_defs pair_distance_def C_of_def sqrt9)

lemma chain4_pair_weight:
  "pair_weight q0 q0 = distance_weight 0 / 9" "pair_weight q0 q1 = distance_weight 1 / 9"
  "pair_weight q0 q2 = distance_weight 2 / 9" "pair_weight q0 q3 = distance_weight 3 / 9"
  "pair_weight q1 q0 = distance_weight 1 / 9" "pair_weight q1 q1 = distance_weight 0 / 9"
  "pair_weight q1 q2 = distance_weight 1 / 9" "pair_weight q1 q3 = distance_weight 2 / 9"
  "pair_weight q2 q0 = distance_weight 2 / 9" "pair_weight q2 q1 = distance_weight 1 / 9"
  "pair_weight q2 q2 = distance_weight 0 / 9" "pair_weight q2 q3 = distance_weight 1 / 9"
  "pair_weight q3 q0 = distance_weight 3 / 9" "pair_weight q3 q1 = distance_weight 2 / 9"
  "pair_weight q3 q2 = distance_weight 1 / 9" "pair_weight q3 q3 = distance_weight 0 / 9"
  by (simp_all add: pair_weight_def chain4_distance same_dir_weight chain4_unit_dir)

lemma chain4_density:
  "density chain4 q0 = dens_end" "density chain4 q1 = dens_mid"
  "density chain4 q2 = dens_mid" "density chain4 q3 = dens_end"
  by (simp_all add: density_def chain4_def chain4_pair_weight dens_end_def dens_mid_def)

lemma dens_order: "dens_end < dens_mid"
  using distance_weight_strict_antimono[of 1 3] by (simp add: dens_end_def dens_mid_def)

lemma chain4_densities: "map (density chain4) chain4 = [dens_end, dens_mid, dens_mid, dens_end]"
  using chain4_density by (simp add: chain4_def)

lemma chain4_sorted: "sort [dens_end, dens_mid, dens_mid, dens_end] = [dens_end, dens_end, dens_mid, dens_mid]"
proof -
  have o: "\<not> dens_mid \<le> dens_end" "dens_end \<le> dens_mid" using dens_order by simp_all
  show ?thesis by (simp add: o)
qed

lemma chain4_medians:
  "lower_median (map (density chain4) chain4) = dens_end"
  "median (map (density chain4) chain4) = (dens_end + dens_mid) / 2"
  unfolding lower_median_def median_def chain4_densities chain4_sorted Let_def by simp_all

lemma one_minus_sigmoid: "1 - sigmoid t = 1 / (1 + exp t)"
proof -
  define e where "e = exp t"
  have e: "0 < e" by (simp add: e_def)
  then have nz: "e \<noteq> 0" "1 + e \<noteq> 0" by simp_all
  have "1 + 1 / e = (1 + e) / e" using nz by (simp add: field_simps)
  then have "1 - 1 / (1 + 1 / e) = 1 - e / (1 + e)" by simp
  also have "\<dots> = 1 / (1 + e)" using nz by (simp add: field_simps)
  finally show ?thesis
    by (simp add: sigmoid_def exp_minus inverse_eq_divide e_def)
qed

lemma ratio_lower:
  fixes x :: real
  assumes "0 < x"
  shows "(1 / (1 + x)) / (1 / 2 + 1 / (1 + x) + 1 / (1 + x) + 1 / 2) = 1 / (3 + x)"
proof -
  have nz: "1 + x \<noteq> 0" using assms by simp
  have "(3 + x) / (1 + x) = ((1 + x) + 2) / (1 + x)" by simp
  also have "\<dots> = (1 + x) / (1 + x) + 2 / (1 + x)" by (rule add_divide_distrib)
  also have "\<dots> = 1 / 2 + 1 / (1 + x) + 1 / (1 + x) + 1 / 2" using nz by simp
  finally have "1 / 2 + 1 / (1 + x) + 1 / (1 + x) + 1 / 2 = (3 + x) / (1 + x)" by simp
  then show ?thesis using nz by simp
qed

lemma ratio_plain:
  fixes y :: real
  assumes "0 < y"
  shows "(1 / (1 + y)) / (1 / (1 + 1 / y) + 1 / (1 + y) + 1 / (1 + y) + 1 / (1 + 1 / y)) = 1 / (2 + 2 * y)"
proof -
  have nz: "1 + y \<noteq> 0" "y \<noteq> 0" using assms by simp_all
  have "1 + 1 / y = y / y + 1 / y" using nz by simp
  also have "\<dots> = (y + 1) / y" by (rule add_divide_distrib[symmetric])
  finally have a: "1 / (1 + 1 / y) = y / (1 + y)" by (simp add: add.commute)
  have "y / (1 + y) + 1 / (1 + y) = (y + 1) / (1 + y)" by (rule add_divide_distrib[symmetric])
  also have "\<dots> = 1" using nz by (simp add: add.commute)
  finally have b: "y / (1 + y) + 1 / (1 + y) = 1" .
  have "1 / (1 + 1 / y) + 1 / (1 + y) + 1 / (1 + y) + 1 / (1 + 1 / y) = 2"
    unfolding a using b by simp
  then have "(1 / (1 + y)) / (1 / (1 + 1 / y) + 1 / (1 + y) + 1 / (1 + y) + 1 / (1 + 1 / y)) = (1 / (1 + y)) / 2"
    by simp
  also have "\<dots> = 1 / (2 + 2 * y)" using nz by (simp add: distrib_left mult.commute)
  finally show ?thesis .
qed

lemma chain4_nonpolar:
  "nonpolar_ind q0 = 0" "nonpolar_ind q1 = 1" "nonpolar_ind q2 = 0" "nonpolar_ind q3 = 0"
  by (simp_all add: nonpolar_ind_def str_residue_def non_polar_residues_def q_defs)

lemma chain4_code_score:
  "score_formula chain4 = 1 / (3 + exp (dens_mid - dens_end))"
proof -
  define x where "x = exp (dens_mid - dens_end)"
  have x: "0 < x" by (simp add: x_def)
  have "score_formula chain4 = (1 / (1 + x)) / (1 / 2 + 1 / (1 + x) + 1 / (1 + x) + 1 / 2)"
    unfolding score_formula_def exposure_def chain4_medians one_minus_sigmoid
    by (simp add: chain4_def chain4_density[unfolded chain4_def] chain4_nonpolar x_def)
  also have "\<dots> = 1 / (3 + x)"
    using x by (rule ratio_lower)
  finally show ?thesis by (simp add: x_def)
qed

lemma chain4_spec_score:
  "spec_score median chain4 = 1 / (2 + 2 * exp ((dens_mid - dens_end) / 2))"
proof -
  define y where "y = exp ((dens_mid - dens_end) / 2)"
  have y: "0 < y" by (simp add: y_def)
  have m: "dens_mid - (dens_end + dens_mid) / 2 = (dens_mid - dens_end) / 2"
    "dens_end - (dens_end + dens_mid) / 2 = - ((dens_mid - dens_end) / 2)"
    by (simp_all add: field_simps)
  have "spec_score median chain4 = (1 / (1 + y)) / (1 / (1 + 1 / y) + 1 / (1 + y) + 1 / (1 + y) + 1 / (1 + 1 / y))"
    unfolding spec_score_general chain4_medians one_minus_sigmoid
    by (simp add: chain4_def chain4_density[unfolded chain4_def] chain4_nonpolar m y_def exp_minus inverse_eq_divide)
  also have "\<dots> = 1 / (2 + 2 * y)"
    using y by (rule ratio_plain)
  finally show ?thesis by (simp add: y_def)
qed

lemma chain4_scores_differ: "score_formula chain4 \<noteq> spec_score median chain4"
proof -
  define y where "y = exp ((dens_mid - dens_end) / 2)"
  have y: "1 < y" using dens_order by (simp add: y_def)
  have "exp (dens_mid - dens_end) = exp (2 * ((dens_mid - dens_end) / 2))" by simp
  also have "\<dots> = y\<^sup>2" unfolding y_def by (rule exp_double)
  finally have sq: "exp (dens_mid - dens_end) = y\<^sup>2" .
  have "(y - 1)\<^sup>2 > 0" using y by simp
  then have "3 + y\<^sup>2 \<noteq> 2 + 2 * y"
    by (simp add: power2_eq_square algebra_simps)
  then show ?thesis
    unfolding chain4_code_score chain4_spec_score sq y_def[symmetric] by simp
qed

text \<open>
  Claim C1 writes the exposure term with the median of the densities. Read as the usual
  median, the formula is not what the scorer returns for an even number of residues:
  \<^verbatim>\<open>torch.median\<close> returns the lower of the two middle values. On the chain of four
  residues the two scores are different.
\<close>

theorem plain_median_differs:
  "fst (calculate_surface_polar_score ld_chain4 ''chain.pdb'' []) \<noteq> Some (Fin (spec_score median chain4))"
  using chain4_scores_differ score_returns_wf[of ld_chain4 "''chain.pdb''" chain4 "[]"] chain4_wf
  by (simp add: ld_chain4_def)

text \<open>
  Claim C1, amended. For every structure with at least one residue, each residue with
  its backbone \<^verbatim>\<open>C\<close> and \<^verbatim>\<open>CA\<close> atoms at different positions, the scorer returns the
  quotient of the specification's formula in which the median of the densities is the
  lower median: the element at index \<open>(N - 1) div 2\<close> of the densities in ascending order.
\<close>

theorem score_matches_formula:
  assumes "ld f = Some traj" "wf_traj traj"
  shows "fst (calculate_surface_polar_score ld f lg) = Some (Fin (spec_score lower_median traj))"
  using assms by (simp add: score_returns_wf spec_score_lower_median)

theorem score_matches_formula_witness:
  "wf_traj [r_val, r_ser] \<and>
   fst (calculate_surface_polar_score (\<lambda>_. Some [r_val, r_ser]) ''a.pdb'' [])
     = Some (Fin (spec_score lower_median [r_val, r_ser]))"
proof -
  have w: "wf_traj [r_val, r_ser]" by (simp add: wf_traj_def wf_examples)
  show ?thesis
    using w score_matches_formula[of "\<lambda>_. Some [r_val, r_ser]" "''a.pdb''" "[r_val, r_ser]" "[]"]
    by simp
qed

section \<open>The batch filter\<close>

subsection \<open>Shapes and exceptions of the scorer\<close>

lemma broadcast_None_iff:
  "broadcast f xs ys = None \<longleftrightarrow> length xs \<noteq> length ys \<and> length xs \<noteq> 1 \<and> length ys \<noteq> 1"
  by (simp add: broadcast_def)

lemma broadcast_length:
  assumes "broadcast f xs ys = Some zs" "xs \<noteq> []" "ys \<noteq> []"
  shows "length zs = max (length xs) (length ys)"
proof -
  have "1 \<le> length xs" "1 \<le> length ys" using assms(2,3) by (simp_all add: Suc_leI)
  then show ?thesis
    using assms(1) by (auto simp: broadcast_def split: if_splits)
qed

lemma all_some_map_Some_cong:
  "(\<And>x. x \<in> set xs \<Longrightarrow> g x = Some (h x)) \<Longrightarrow> all_some (map g xs) = Some (map h xs)"
  by (induction xs) simp_all

lemma all_some_map2_broadcast:
  assumes "length A = length B" "\<forall>i<length A. length (A ! i) = length (B ! i)"
  shows "all_some (map2 (broadcast f) A B) = Some (map2 (map2 f) A B)"
  using assms
proof (induction A B rule: list_induct2)
  case Nil
  then show ?case by simp
next
  case (Cons a A b B)
  have "length a = length b" using Cons.prems by auto
  moreover have "\<forall>i<length A. length (A ! i) = length (B ! i)" using Cons.prems by auto
  ultimately show ?case using Cons.IH by (simp add: broadcast_same_length)
qed

lemma broadcast2_same_shape:
  assumes "length A = length B" "\<forall>i<length A. length (A ! i) = length (B ! i)"
  shows "broadcast2 f A B = Some (map2 (map2 f) A B)"
  using assms by (simp add: broadcast2_def broadcast_same_length all_some_map2_broadcast)

lemma broadcast2_stretch:
  assumes "length B \<noteq> 1" "\<forall>b\<in>set B. length b = length B"
  shows "broadcast2 f [[a]] B = Some (map (map (f a)) B)"
proof -
  have "broadcast (broadcast f) [[a]] B = Some (map (broadcast f [a]) B)"
    using assms(1) by (auto simp: broadcast_def)
  moreover have "all_some (map (broadcast f [a]) B) = Some (map (map (f a)) B)"
    using assms by (intro all_some_map_Some_cong) (auto simp: broadcast_def)
  ultimately show ?thesis by (simp add: broadcast2_def)
qed

lemma square_singleton:
  assumes "length A = 1" "\<forall>a\<in>set A. length a = 1"
  shows "\<exists>x. A = [[x]]"
proof -
  obtain a where a: "A = [a]" using assms(1) by (cases A) auto
  then have "length a = 1" using assms(2) by simp
  then obtain x where "a = [x]" by (cases a) auto
  then show ?thesis using a by simp
qed

lemma broadcast2_squares:
  assumes "length A = k" "\<forall>a\<in>set A. length a = k" "length B = n" "\<forall>b\<in>set B. length b = n"
    "k = n \<or> k = 1"
  shows "\<exists>W. broadcast2 f A B = Some W \<and> length W = n"
proof (cases "k = n")
  case True
  then have "\<forall>i<length A. length (A ! i) = length (B ! i)"
    using assms(1-4) by simp
  then show ?thesis
    using True assms(1,3) by (simp add: broadcast2_same_shape)
next
  case False
  then have k: "k = 1" using assms(5) by simp
  then obtain x where "A = [[x]]" using square_singleton assms(1,2) by blast
  then show ?thesis
    using broadcast2_stretch[of B f x] False k assms(3,4) by simp
qed

lemma length_sigmoid_term_of: "length (sigmoid_term_of W) = length W"
  by (simp add: sigmoid_term_of_def Let_def)

lemma length_classify: "length (fst (classify_polarity traj)) = length traj"
  by (simp add: classify_polarity_closed)

lemma select_C_cases:
  "select_C traj = (if count_C traj = 0 then None else Some (List.map_filter atom_C traj))"
  by (simp add: select_C_def count_C_def Let_def)

lemma select_CA_cases:
  "select_CA traj = (if count_CA traj = 0 then None else Some (List.map_filter atom_CA traj))"
  by (simp add: select_CA_def count_CA_def Let_def)

lemma calculate_angles_shape:
  assumes "count_C traj \<noteq> 0" "count_CA traj \<noteq> 0"
  shows "if count_C traj \<noteq> count_CA traj \<and> count_C traj \<noteq> 1 \<and> count_CA traj \<noteq> 1
         then calculate_angles traj = None
         else \<exists>phi. calculate_angles traj = Some phi \<and> length phi = max (count_C traj) (count_CA traj)
                \<and> (\<forall>row\<in>set phi. length row = max (count_C traj) (count_CA traj))"
proof -
  let ?cs = "List.map_filter atom_C traj" and ?as = "List.map_filter atom_CA traj"
  have ne: "?cs \<noteq> []" "?as \<noteq> []" using assms by (auto simp: count_C_def count_CA_def)
  show ?thesis
  proof (cases "broadcast vsub ?cs ?as")
    case None
    then have "count_C traj \<noteq> count_CA traj \<and> count_C traj \<noteq> 1 \<and> count_CA traj \<noteq> 1"
      by (simp add: broadcast_None_iff count_C_def count_CA_def)
    then show ?thesis
      using assms None
      by (simp add: calculate_angles_def select_C_cases select_CA_cases)
  next
    case (Some d)
    have l: "length d = max (count_C traj) (count_CA traj)"
      using broadcast_length[OF Some ne] by (simp add: count_C_def count_CA_def)
    have "\<not> (count_C traj \<noteq> count_CA traj \<and> count_C traj \<noteq> 1 \<and> count_CA traj \<noteq> 1)"
      using Some broadcast_None_iff[of vsub ?cs ?as] by (simp add: count_C_def count_CA_def)
    then show ?thesis
      using assms Some l
      by (simp add: calculate_angles_def select_C_cases select_CA_cases Let_def)
  qed
qed

lemma calculate_backbone_neighbors_shape:
  assumes "ld p = Some traj" "count_C traj \<noteq> 0"
  shows "\<exists>D. calculate_backbone_neighbors ld p = Some D \<and> length D = count_C traj
                \<and> (\<forall>row\<in>set D. length row = count_C traj)"
  using assms
  by (simp add: calculate_backbone_neighbors_def load_pdb_def select_C_cases count_C_def)

lemma combined_weights_shape:
  assumes "length D = k" "\<forall>row\<in>set D. length row = k" "length phi = n" "\<forall>row\<in>set phi. length row = n"
    "k = n \<or> k = 1"
  shows "\<exists>W. combined_weights_of D phi = Some W \<and> length W = n"
proof -
  let ?A = "map (map (fmap distance_weight)) D" and ?B = "map (map (fmap angle_weight)) phi"
  obtain W where W: "broadcast2 fmul ?A ?B = Some W" "length W = n"
    using broadcast2_squares[of ?A k ?B n fmul] assms by auto
  then show ?thesis
    by (simp add: combined_weights_of_def Let_def masked_fill_def eye_def)
qed

lemma polar_score_of_None_iff:
  "polar_score_of np st = None \<longleftrightarrow> length np \<noteq> length st \<and> length np \<noteq> 1 \<and> length st \<noteq> 1"
proof (cases "broadcast fmul np st")
  case None
  then show ?thesis
    using broadcast_None_iff[of fmul np st] by (simp add: polar_score_of_def)
next
  case (Some w)
  then show ?thesis
    using broadcast_None_iff[of fmul np st] by (simp add: polar_score_of_def Let_def)
qed

lemma polar_score_try_None_iff:
  assumes "ld p = Some traj"
  shows "polar_score_try ld p = None \<longleftrightarrow> scorer_raises traj"
proof (cases "count_C traj = 0")
  case True
  then show ?thesis
    using assms
    by (simp add: polar_score_try_def load_pdb_def calculate_backbone_neighbors_def select_C_cases
        scorer_raises_def)
next
  case k: False
  obtain D where D: "calculate_backbone_neighbors ld p = Some D" "length D = count_C traj"
    "\<forall>row\<in>set D. length row = count_C traj"
    using calculate_backbone_neighbors_shape[of ld p traj] assms k by blast
  show ?thesis
  proof (cases "count_CA traj = 0")
    case True
    then show ?thesis
      using assms D(1)
      by (simp add: polar_score_try_def load_pdb_def calculate_angles_def select_C_cases
          select_CA_cases scorer_raises_def split: prod.splits)
  next
    case m: False
    show ?thesis
    proof (cases "count_C traj \<noteq> count_CA traj \<and> count_C traj \<noteq> 1 \<and> count_CA traj \<noteq> 1")
      case True
      then have "calculate_angles traj = None"
        using calculate_angles_shape[OF k m] by simp
      then show ?thesis
        using assms D(1) True
        by (simp add: polar_score_try_def load_pdb_def scorer_raises_def Let_def split: prod.splits)
    next
      case False
      let ?n = "max (count_C traj) (count_CA traj)"
      obtain phi where phi: "calculate_angles traj = Some phi" "length phi = ?n"
        "\<forall>row\<in>set phi. length row = ?n"
        using calculate_angles_shape[OF k m] False by auto
      have "count_C traj = ?n \<or> count_C traj = 1" using False k m by (auto simp: max_def)
      then obtain W where W: "combined_weights_of D phi = Some W" "length W = ?n"
        using combined_weights_shape[OF D(2,3) phi(2,3)] by blast
      have "polar_score_try ld p = polar_score_of (fst (classify_polarity traj)) (sigmoid_term_of W)"
        using assms D(1) phi(1) W(1)
        by (simp add: polar_score_try_def load_pdb_def split: prod.splits)
      then show ?thesis
        using False k m W(2)
        by (auto simp: polar_score_of_None_iff length_sigmoid_term_of length_classify
            scorer_raises_def Let_def)
    qed
  qed
qed

subsection \<open>The loop\<close>

lemma passes_try:
  "passes e d thr f =
     (case polar_score_try (md_load e) (path_join d f) of Some s \<Rightarrow> fle s thr | None \<Rightarrow> False)"
  by (simp add: passes_def score_fst)

lemma filter_loop_outcome:
  "(list_all (copy_succeeds e d out) (filter (passes e d thr) fs) \<longrightarrow>
      (\<exists>st'. filter_loop e d out thr fs st = Inr st' \<and>
         copied st' = copied st @ map (copy_of d out) (filter (passes e d thr) fs) \<and>
         passed_files st' = passed_files st + length (filter (passes e d thr) fs) \<and>
         set (log st) \<subseteq> set (log st') \<and>
         (\<forall>f\<in>set fs. polar_score_try (md_load e) (path_join d f) = None \<longrightarrow>
            Warning_skip f \<in> set (log st') \<and> Error_score (path_join d f) \<in> set (log st')))) \<and>
   (\<not> list_all (copy_succeeds e d out) (filter (passes e d thr) fs) \<longrightarrow>
      (\<exists>st'. filter_loop e d out thr fs st = Inl st' \<and>
         copied st' = copied st @ map (copy_of d out)
                                    (takeWhile (copy_succeeds e d out) (filter (passes e d thr) fs))))"
proof (induction fs arbitrary: st)
  case Nil
  then show ?case by simp
next
  case (Cons f fs)
  show ?case
  proof (cases "polar_score_try (md_load e) (path_join d f)")
    case None
    let ?st = "st\<lparr>log := (log st @ [Error_score (path_join d f)]) @ [Warning_skip f]\<rparr>"
    have step: "filter_loop e d out thr (f # fs) st = filter_loop e d out thr fs ?st"
      using None by (simp add: calculate_surface_polar_score_def)
    have np: "\<not> passes e d thr f" using None by (simp add: passes_try)
    show ?thesis
      using Cons.IH[of ?st] np unfolding step by (simp, blast)
  next
    case (Some s)
    show ?thesis
    proof (cases "fle s thr")
      case False
      let ?st = "st\<lparr>log := log st @ [Info_score f s, Info_rejected thr]\<rparr>"
      have step: "filter_loop e d out thr (f # fs) st = filter_loop e d out thr fs ?st"
        using Some False by (simp add: calculate_surface_polar_score_def)
      have np: "\<not> passes e d thr f" using Some False by (simp add: passes_try)
      show ?thesis
        using Cons.IH[of ?st] np Some unfolding step by (simp, blast)
    next
      case True
      have p: "passes e d thr f" using Some True by (simp add: passes_try)
      show ?thesis
      proof (cases "copy_succeeds e d out f")
        case False
        have "filter_loop e d out thr (f # fs) st = Inl (st\<lparr>log := log st @ [Info_score f s]\<rparr>)"
          using Some True False
          by (simp add: calculate_surface_polar_score_def copy_succeeds_def Let_def)
        then show ?thesis using p False by simp
      next
        case ok: True
        let ?st = "st\<lparr>passed_files := passed_files st + 1,
                      copied := copied st @ [(path_join d f, path_join out f)],
                      log := log st @ [Info_score f s, Info_copied (path_join out f)]\<rparr>"
        have step: "filter_loop e d out thr (f # fs) st = filter_loop e d out thr fs ?st"
          using Some True ok
          by (simp add: calculate_surface_polar_score_def copy_succeeds_def Let_def)
        show ?thesis
          using Cons.IH[of ?st] p ok Some unfolding step by (simp add: copy_of_def, blast)
      qed
    qed
  qed
qed

lemma run_outcome:
  assumes "makedirs_ok e out" "listdir e d = Some entries"
  shows "(list_all (copy_succeeds e d out) (passing_files e d thr entries) \<longrightarrow>
            count_of (filter_pdbs_by_polar_score e d out thr lg)
              = Some (length (passing_files e d thr entries)) \<and>
            copies_of (filter_pdbs_by_polar_score e d out thr lg)
              = map (copy_of d out) (passing_files e d thr entries)) \<and>
         (\<not> list_all (copy_succeeds e d out) (passing_files e d thr entries) \<longrightarrow>
            count_of (filter_pdbs_by_polar_score e d out thr lg) = None \<and>
            copies_of (filter_pdbs_by_polar_score e d out thr lg)
              = map (copy_of d out)
                  (takeWhile (copy_succeeds e d out) (passing_files e d thr entries)))"
proof -
  let ?fs = "filter (\<lambda>f. endswith f ''.pdb'') entries"
  let ?st0 = "\<lparr>passed_files = 0, copied = [],
               log = lg @ [Info_start d, Info_found (length ?fs), Info_threshold thr]\<rparr>"
  show ?thesis
  proof (cases "list_all (copy_succeeds e d out) (passing_files e d thr entries)")
    case True
    then obtain st' where "filter_loop e d out thr ?fs ?st0 = Inr st'"
      "copied st' = map (copy_of d out) (passing_files e d thr entries)"
      "passed_files st' = length (passing_files e d thr entries)"
      using filter_loop_outcome[of e d out thr ?fs ?st0] by (auto simp: passing_files_def)
    then show ?thesis
      using True assms
      by (simp add: filter_pdbs_by_polar_score_def Let_def count_of_def copies_of_def)
  next
    case False
    then obtain st' where "filter_loop e d out thr ?fs ?st0 = Inl st'"
      "copied st' = map (copy_of d out)
                      (takeWhile (copy_succeeds e d out) (passing_files e d thr entries))"
      using filter_loop_outcome[of e d out thr ?fs ?st0] by (auto simp: passing_files_def)
    then show ?thesis
      using False assms
      by (simp add: filter_pdbs_by_polar_score_def Let_def count_of_def copies_of_def)
  qed
qed

lemma run_skip_logged:
  assumes "makedirs_ok e out" "listdir e d = Some entries" "f \<in> set entries" "endswith f ''.pdb''"
    "polar_score_try (md_load e) (path_join d f) = None"
    "count_of (filter_pdbs_by_polar_score e d out thr lg) \<noteq> None"
  shows "Warning_skip f \<in> set (log_of (filter_pdbs_by_polar_score e d out thr lg)) \<and>
         Error_score (path_join d f) \<in> set (log_of (filter_pdbs_by_polar_score e d out thr lg))"
proof -
  let ?fs = "filter (\<lambda>f. endswith f ''.pdb'') entries"
  let ?st0 = "\<lparr>passed_files = 0, copied = [],
               log = lg @ [Info_start d, Info_found (length ?fs), Info_threshold thr]\<rparr>"
  have ok: "list_all (copy_succeeds e d out) (filter (passes e d thr) ?fs)"
    using run_outcome[OF assms(1,2), of thr lg] assms(6) by (auto simp: passing_files_def)
  have "f \<in> set ?fs" using assms(3,4) by simp
  then obtain st' where "filter_loop e d out thr ?fs ?st0 = Inr st'"
      "Warning_skip f \<in> set (log st')" "Error_score (path_join d f) \<in> set (log st')"
    using filter_loop_outcome[of e d out thr ?fs ?st0] ok assms(5) by blast
  then show ?thesis
    using assms(1,2)
    by (simp add: filter_pdbs_by_polar_score_def Let_def log_of_def)
qed

lemma ser_score: "polar_score_try (\<lambda>_. Some [r_ser]) p = Some (Fin 0)"
  using single_residue_try[of "\<lambda>_. Some [r_ser]" p r_ser "(1, 0, 1)" "(1, 0, 0)"]
  by (simp add: r_ser_def nonpolar_ind_def str_residue_def non_polar_residues_def)

lemma env_same_facts:
  "makedirs_ok env_same ''in''" "listdir env_same ''in'' = Some [''zero.pdb'']"
  "md_load env_same = (\<lambda>_. Some [r_ser])"
  "\<not> copy_succeeds env_same ''in'' ''in'' ''zero.pdb''"
  by (simp_all add: env_same_def copy_succeeds_def shutil_copy_def)

lemma env_same_passing: "passing_files env_same ''in'' (Fin 1) [''zero.pdb''] = [''zero.pdb'']"
  by (simp add: passing_files_def passes_try env_same_facts ser_score endswith_def)

lemma env_two_facts:
  "makedirs_ok env_two ''out''"
  "listdir env_two ''in'' = Some ([] @ ''bad.pdb'' # [''zero.pdb'', ''notes.txt''])"
  "polar_score_try (md_load env_two) (path_join ''in'' ''bad.pdb'') = None"
  "polar_score_try (md_load env_two) (path_join ''in'' ''zero.pdb'') = Some (Fin 0)"
  "copy_succeeds env_two ''in'' ''out'' ''zero.pdb''"
  "endswith ''bad.pdb'' ''.pdb''"
proof -
  have "polar_score_try (md_load env_two) ''in/zero.pdb'' = polar_score_try (\<lambda>_. Some [r_ser]) ''in/zero.pdb''"
    by (simp add: env_two_def polar_score_try_def load_pdb_def calculate_backbone_neighbors_def)
  then show "polar_score_try (md_load env_two) (path_join ''in'' ''zero.pdb'') = Some (Fin 0)"
    by (simp add: ser_score path_join_def)
qed (simp_all add: env_two_def copy_succeeds_def shutil_copy_def path_join_def endswith_def
      polar_score_try_def load_pdb_def)

lemma env_two_passing:
  "passing_files env_two ''in'' (Fin 1) [''bad.pdb'', ''zero.pdb'', ''notes.txt''] = [''zero.pdb'']"
  by (simp add: passing_files_def passes_try env_two_facts endswith_def)

text \<open>
  Claim C10 says that every file with a score at most the threshold is copied and that
  the number of copies is returned. The call of \<^verbatim>\<open>shutil.copy\<close> is not guarded: when the
  output directory is the design directory, the first passing file is copied onto
  itself, the copy raises, and the run ends with no copy made and no count returned.
\<close>

theorem passing_file_not_copied:
  "makedirs_ok env_same ''in'' \<and> listdir env_same ''in'' = Some [''zero.pdb''] \<and>
   fst (calculate_surface_polar_score (md_load env_same) (path_join ''in'' ''zero.pdb'') [])
     = Some (Fin 0) \<and>
   fle (Fin 0) (Fin 1) \<and>
   count_of (filter_pdbs_by_polar_score env_same ''in'' ''in'' (Fin 1) []) = None \<and>
   copies_of (filter_pdbs_by_polar_score env_same ''in'' ''in'' (Fin 1) []) = []"
  using run_outcome[of env_same "''in''" "''in''" "[''zero.pdb'']" "Fin 1" "[]"]
  by (simp add: env_same_facts env_same_passing score_fst ser_score)

text \<open>
  Claim C10, amended. Let the output directory be created and the design directory be
  listed. The files the loop tries to copy are the \<^verbatim>\<open>.pdb\<close> entries whose score is computed
  and is at most the threshold (the boundary included), in directory order; an entry
  whose score computation failed or whose score is NaN or above the threshold is never
  copied. If each of these copies succeeds, which needs a destination path different
  from the source path, exactly these files are copied and the returned count is their
  number. Otherwise the run ends at the first copy that raises: the passing files before
  it are copied and no count is returned.
\<close>

theorem filter_copies_passing_files:
  assumes "makedirs_ok e out" "listdir e d = Some entries"
  shows "(list_all (copy_succeeds e d out) (passing_files e d thr entries) \<longrightarrow>
            count_of (filter_pdbs_by_polar_score e d out thr lg)
              = Some (length (passing_files e d thr entries)) \<and>
            copies_of (filter_pdbs_by_polar_score e d out thr lg)
              = map (copy_of d out) (passing_files e d thr entries)) \<and>
         (\<not> list_all (copy_succeeds e d out) (passing_files e d thr entries) \<longrightarrow>
            count_of (filter_pdbs_by_polar_score e d out thr lg) = None \<and>
            copies_of (filter_pdbs_by_polar_score e d out thr lg)
              = map (copy_of d out)
                  (takeWhile (copy_succeeds e d out) (passing_files e d thr entries)))"
  using assms by (rule run_outcome)

theorem filter_copies_passing_files_witness:
  "makedirs_ok env_two ''out'' \<and>
   listdir env_two ''in'' = Some [''bad.pdb'', ''zero.pdb'', ''notes.txt''] \<and>
   list_all (copy_succeeds env_two ''in'' ''out'')
     (passing_files env_two ''in'' (Fin 1) [''bad.pdb'', ''zero.pdb'', ''notes.txt'']) \<and>
   count_of (filter_pdbs_by_polar_score env_two ''in'' ''out'' (Fin 1) []) = Some 1 \<and>
   copies_of (filter_pdbs_by_polar_score env_two ''in'' ''out'' (Fin 1) [])
     = [(''in/zero.pdb'', ''out/zero.pdb'')] \<and>
   makedirs_ok env_same ''in'' \<and> listdir env_same ''in'' = Some [''zero.pdb''] \<and>
   \<not> list_all (copy_succeeds env_same ''in'' ''in'')
       (passing_files env_same ''in'' (Fin 1) [''zero.pdb'']) \<and>
   count_of (filter_pdbs_by_polar_score env_same ''in'' ''in'' (Fin 1) []) = None"
proof -
  have two: "makedirs_ok env_two ''out''"
    "listdir env_two ''in'' = Some [''bad.pdb'', ''zero.pdb'', ''notes.txt'']"
    "list_all (copy_succeeds env_two ''in'' ''out'')
       (passing_files env_two ''in'' (Fin 1) [''bad.pdb'', ''zero.pdb'', ''notes.txt''])"
    using env_two_facts by (simp_all add: env_two_passing)
  have same: "makedirs_ok env_same ''in''" "listdir env_same ''in'' = Some [''zero.pdb'']"
    "\<not> list_all (copy_succeeds env_same ''in'' ''in'')
        (passing_files env_same ''in'' (Fin 1) [''zero.pdb''])"
    by (simp_all add: env_same_facts env_same_passing)
  show ?thesis
    using two same
      filter_copies_passing_files[of env_two "''out''" "''in''"
        "[''bad.pdb'', ''zero.pdb'', ''notes.txt'']" "Fin 1" "[]"]
      filter_copies_passing_files[of env_same "''in''" "''in''" "[''zero.pdb'']" "Fin 1" "[]"]
    by (simp add: env_two_passing copy_of_def path_join_def)
qed

subsection \<open>Failures\<close>

text \<open>
  Claim C4 says that a structure lacking backbone atoms yields a failure and never a
  number. The script has no such check and relies on the exceptions of the array
  libraries, which broadcasting suppresses when a count is 1: for a complete valine
  followed by a leucine without backbone atoms the single exposure term is stretched
  over both residues and the scorer returns 2.
\<close>

theorem missing_atoms_not_reported:
  "fst (calculate_surface_polar_score ld_partial ''x.pdb'' []) = Some (Fin 2)"
  by (simp add: score_fst partial_score)

text \<open>
  Claim C4, amended. The scorer returns \<^verbatim>\<open>None\<close>, after logging an error, exactly when the
  file cannot be loaded, or no backbone \<^verbatim>\<open>C\<close> atom or no backbone \<^verbatim>\<open>CA\<close> atom is selected,
  or the numbers of selected \<^verbatim>\<open>C\<close> and \<^verbatim>\<open>CA\<close> atoms differ and neither is 1, or the larger
  of the two differs from the number of residues and neither of these is 1; the failure
  is untyped. For a \<^verbatim>\<open>.pdb\<close> entry whose score is \<^verbatim>\<open>None\<close> the batch filter copies
  nothing and goes on: count and copies are those of the run on the directory without
  that entry, and a run that returns has logged the error and a warning for it.
\<close>

theorem failures_are_skipped:
  "(fst (calculate_surface_polar_score ld p lg) = None \<longleftrightarrow>
      (case ld p of None \<Rightarrow> True | Some traj \<Rightarrow> scorer_raises traj)) \<and>
   (fst (calculate_surface_polar_score ld p lg) = None \<longrightarrow>
      snd (calculate_surface_polar_score ld p lg) = lg @ [Error_score p]) \<and>
   (makedirs_ok e out \<and> listdir e d = Some (pre @ f # post) \<and> endswith f ''.pdb'' \<and>
    fst (calculate_surface_polar_score (md_load e) (path_join d f) []) = None \<longrightarrow>
      count_of (filter_pdbs_by_polar_score e d out thr lg)
        = count_of (filter_pdbs_by_polar_score (e\<lparr>listdir := \<lambda>_. Some (pre @ post)\<rparr>) d out thr lg) \<and>
      copies_of (filter_pdbs_by_polar_score e d out thr lg)
        = copies_of (filter_pdbs_by_polar_score (e\<lparr>listdir := \<lambda>_. Some (pre @ post)\<rparr>) d out thr lg) \<and>
      (count_of (filter_pdbs_by_polar_score e d out thr lg) \<noteq> None \<longrightarrow>
         Error_score (path_join d f) \<in> set (log_of (filter_pdbs_by_polar_score e d out thr lg)) \<and>
         Warning_skip f \<in> set (log_of (filter_pdbs_by_polar_score e d out thr lg))))"
proof -
  have 1: "fst (calculate_surface_polar_score ld p lg) = None \<longleftrightarrow>
             (case ld p of None \<Rightarrow> True | Some traj \<Rightarrow> scorer_raises traj)"
  proof (cases "ld p")
    case None
    then show ?thesis by (simp add: score_fst polar_score_try_def load_pdb_def)
  next
    case (Some traj)
    then show ?thesis
      using polar_score_try_None_iff[of ld p traj] by (simp add: score_fst)
  qed
  have 2: "fst (calculate_surface_polar_score ld p lg) = None \<longrightarrow>
             snd (calculate_surface_polar_score ld p lg) = lg @ [Error_score p]"
    by (simp add: score_fst score_snd)
  have 3: "count_of (filter_pdbs_by_polar_score e d out thr lg)
        = count_of (filter_pdbs_by_polar_score (e\<lparr>listdir := \<lambda>_. Some (pre @ post)\<rparr>) d out thr lg) \<and>
      copies_of (filter_pdbs_by_polar_score e d out thr lg)
        = copies_of (filter_pdbs_by_polar_score (e\<lparr>listdir := \<lambda>_. Some (pre @ post)\<rparr>) d out thr lg) \<and>
      (count_of (filter_pdbs_by_polar_score e d out thr lg) \<noteq> None \<longrightarrow>
         Error_score (path_join d f) \<in> set (log_of (filter_pdbs_by_polar_score e d out thr lg)) \<and>
         Warning_skip f \<in> set (log_of (filter_pdbs_by_polar_score e d out thr lg)))"
    if m: "makedirs_ok e out" and l: "listdir e d = Some (pre @ f # post)"
      and s: "endswith f ''.pdb''" and n: "polar_score_try (md_load e) (path_join d f) = None"
  proof -
    let ?e' = "e\<lparr>listdir := \<lambda>_. Some (pre @ post)\<rparr>"
    have np: "\<not> passes e d thr f" using n by (simp add: passes_try)
    have p: "passing_files ?e' d thr (pre @ post) = passing_files e d thr (pre @ f # post)"
      using np by (simp add: passing_files_def passes_def)
    have c: "copy_succeeds ?e' d out = copy_succeeds e d out"
      by (rule ext) (simp add: copy_succeeds_def shutil_copy_def)
    have m': "makedirs_ok ?e' out" "listdir ?e' d = Some (pre @ post)" using m by simp_all
    have "count_of (filter_pdbs_by_polar_score e d out thr lg)
            = count_of (filter_pdbs_by_polar_score ?e' d out thr lg) \<and>
          copies_of (filter_pdbs_by_polar_score e d out thr lg)
            = copies_of (filter_pdbs_by_polar_score ?e' d out thr lg)"
      using run_outcome[OF m l, of thr lg] run_outcome[OF m', of thr lg]
      unfolding p c
      by (cases "list_all (copy_succeeds e d out) (passing_files e d thr (pre @ f # post))") simp_all
    moreover have "count_of (filter_pdbs_by_polar_score e d out thr lg) \<noteq> None \<longrightarrow>
         Warning_skip f \<in> set (log_of (filter_pdbs_by_polar_score e d out thr lg)) \<and>
         Error_score (path_join d f) \<in> set (log_of (filter_pdbs_by_polar_score e d out thr lg))"
      using run_skip_logged[OF m l _ s n, of thr lg] by simp
    ultimately show ?thesis by blast
  qed
  show ?thesis
    using 1 2 3 by (simp add: score_fst)
qed

theorem failures_are_skipped_witness:
  "ld_none ''a.pdb'' = None \<and>
   fst (calculate_surface_polar_score ld_none ''a.pdb'' []) = None \<and>
   snd (calculate_surface_polar_score ld_none ''a.pdb'' []) = [Error_score ''a.pdb''] \<and>
   ld_bare ''z.pdb'' = Some [r_leu_bare] \<and> scorer_raises [r_leu_bare] \<and>
   fst (calculate_surface_polar_score ld_bare ''z.pdb'' []) = None \<and>
   makedirs_ok env_two ''out'' \<and>
   listdir env_two ''in'' = Some ([] @ ''bad.pdb'' # [''zero.pdb'', ''notes.txt'']) \<and>
   endswith ''bad.pdb'' ''.pdb'' \<and>
   fst (calculate_surface_polar_score (md_load env_two) (path_join ''in'' ''bad.pdb'') []) = None \<and>
   count_of (filter_pdbs_by_polar_score env_two ''in'' ''out'' (Fin 1) []) \<noteq> None \<and>
   count_of (filter_pdbs_by_polar_score env_two ''in'' ''out'' (Fin 1) [])
     = count_of (filter_pdbs_by_polar_score
                   (env_two\<lparr>listdir := \<lambda>_. Some ([] @ [''zero.pdb'', ''notes.txt''])\<rparr>)
                   ''in'' ''out'' (Fin 1) []) \<and>
   Warning_skip ''bad.pdb''
     \<in> set (log_of (filter_pdbs_by_polar_score env_two ''in'' ''out'' (Fin 1) []))"
proof -
  have a: "ld_none ''a.pdb'' = None" by (simp add: ld_none_def)
  have b: "ld_bare ''z.pdb'' = Some [r_leu_bare]" "scorer_raises [r_leu_bare]"
    by (simp_all add: ld_bare_def scorer_raises_def count_C_def count_CA_def r_leu_bare_def)
  have c: "makedirs_ok env_two ''out''"
    "listdir env_two ''in'' = Some ([] @ ''bad.pdb'' # [''zero.pdb'', ''notes.txt''])"
    "endswith ''bad.pdb'' ''.pdb''"
    "fst (calculate_surface_polar_score (md_load env_two) (path_join ''in'' ''bad.pdb'') []) = None"
    using env_two_facts by (simp_all add: score_fst)
  have d: "count_of (filter_pdbs_by_polar_score env_two ''in'' ''out'' (Fin 1) []) \<noteq> None"
    using run_outcome[of env_two "''out''" "''in''" "[''bad.pdb'', ''zero.pdb'', ''notes.txt'']" "Fin 1" "[]"]
      env_two_facts
    by (simp add: env_two_passing)
  show ?thesis
    using a b c d
      failures_are_skipped[of ld_none "''a.pdb''" "[]" env_two "''out''" "''in''" "[]" "''bad.pdb''"
        "[''zero.pdb'', ''notes.txt'']" "Fin 1"]
      failures_are_skipped[of ld_bare "''z.pdb''" "[]" env_two "''out''" "''in''" "[]" "''bad.pdb''"
        "[''zero.pdb'', ''notes.txt'']" "Fin 1"]
    by simp
qed

end
